theory Spec2Isabelle
  imports Main "HOL-Library.FSet" "HOL-Library.Multiset"
begin

section \<open>Component roles (package components: src/compute/components/common.go)\<close>

text \<open>
  \<^verbatim>\<open>type ComponentRole int\<close> with the three constants \<^verbatim>\<open>RoleUndefined\<close>,
  \<^verbatim>\<open>RoleCoordinator\<close>, \<^verbatim>\<open>RoleWorker\<close> (in iota order).
\<close>

datatype ComponentRole = RoleUndefined | RoleCoordinator | RoleWorker

fun String_role :: "ComponentRole \<Rightarrow> string" where
  "String_role RoleCoordinator = ''coordinator''"
| "String_role RoleWorker = ''worker''"
| "String_role RoleUndefined = ''undefined''"

definition ParseComponentRole :: "string \<Rightarrow> ComponentRole" where
  "ParseComponentRole r =
     (if r = ''coordinator'' then RoleCoordinator
      else if r = ''worker'' then RoleWorker
      else RoleUndefined)"

section \<open>Tracker (package components: src/unnamed/part_007)\<close>

text \<open>
  \<^verbatim>\<open>type set = map[string]struct{}\<close>: a finite set of ids. The tracker holds two
  of them; its mutex makes every method atomic, so each method is a function on the
  tracker value.
\<close>

record Tracker =
  coordinators :: "string fset"
  workers :: "string fset"

definition NewTracker :: "Tracker" where
  "NewTracker = \<lparr>coordinators = {||}, workers = {||}\<rparr>"

text \<open>
  A Go panic. Writing an entry into a nil map panics
  (``assignment to entry in nil map''), reading from one does not; so does a method
  call on a nil interface value (``nil pointer dereference'').
\<close>

datatype panic = AssignNilMap | NilDereference

text \<open>
  The local \<^verbatim>\<open>var set set\<close> of \<^verbatim>\<open>TryJoin\<close>: it aliases the map the
  \<^verbatim>\<open>switch\<close> selected and stays nil (\<open>None\<close>) when no case matches.
\<close>

fun select_set :: "ComponentRole \<Rightarrow> Tracker \<Rightarrow> string fset option" where
  "select_set RoleCoordinator t = Some (coordinators t)"
| "select_set RoleWorker t = Some (workers t)"
| "select_set RoleUndefined t = None"

fun store_set :: "ComponentRole \<Rightarrow> string fset \<Rightarrow> Tracker \<Rightarrow> Tracker" where
  "store_set RoleCoordinator s t = t\<lparr>coordinators := s\<rparr>"
| "store_set RoleWorker s t = t\<lparr>workers := s\<rparr>"
| "store_set RoleUndefined s t = t"

definition TryJoin :: "ComponentRole \<Rightarrow> string \<Rightarrow> Tracker \<Rightarrow> panic + (bool \<times> Tracker)" where
  "TryJoin role ident t =
     (case select_set role t of
        None \<Rightarrow> Inl AssignNilMap
      | Some s \<Rightarrow>
          if ident |\<in>| s then Inr (False, t)
          else Inr (True, store_set role (finsert ident s) t))"

fun Leave :: "ComponentRole \<Rightarrow> string \<Rightarrow> Tracker \<Rightarrow> Tracker" where
  "Leave RoleCoordinator ident t = t\<lparr>coordinators := coordinators t |-| {|ident|}\<rparr>"
| "Leave RoleWorker ident t = t\<lparr>workers := workers t |-| {|ident|}\<rparr>"
| "Leave RoleUndefined ident t = t"

definition Count :: "Tracker \<Rightarrow> int \<times> int" where
  "Count t = (int (fcard (coordinators t)), int (fcard (workers t)))"

text \<open>Membership of an id in the set of a role (no set for the undefined role).\<close>

fun tracked :: "ComponentRole \<Rightarrow> string \<Rightarrow> Tracker \<Rightarrow> bool" where
  "tracked RoleCoordinator ident t = (ident |\<in>| coordinators t)"
| "tracked RoleWorker ident t = (ident |\<in>| workers t)"
| "tracked RoleUndefined ident t = False"

text \<open>A sequence of tracker calls, run in order; a panic ends the run.\<close>

datatype tracker_call = CallTryJoin ComponentRole string | CallLeave ComponentRole string

fun call_role :: "tracker_call \<Rightarrow> ComponentRole" where
  "call_role (CallTryJoin r i) = r"
| "call_role (CallLeave r i) = r"

fun run_call :: "tracker_call \<Rightarrow> Tracker \<Rightarrow> panic + Tracker" where
  "run_call (CallTryJoin r i) t = (case TryJoin r i t of Inl p \<Rightarrow> Inl p | Inr (b, t') \<Rightarrow> Inr t')"
| "run_call (CallLeave r i) t = Inr (Leave r i t)"

fun run_calls :: "tracker_call list \<Rightarrow> Tracker \<Rightarrow> panic + Tracker" where
  "run_calls [] t = Inr t"
| "run_calls (c # cs) t = (case run_call c t of Inl p \<Rightarrow> Inl p | Inr t' \<Rightarrow> run_calls cs t')"

text \<open>
  The last call made for a role and an id: \<open>Some True\<close> for a \<^verbatim>\<open>TryJoin\<close>,
  \<open>Some False\<close> for a \<^verbatim>\<open>Leave\<close>, \<open>None\<close> when the sequence has no call for them.
\<close>

fun last_call :: "ComponentRole \<Rightarrow> string \<Rightarrow> tracker_call list \<Rightarrow> bool option" where
  "last_call r i [] = None"
| "last_call r i (CallTryJoin r' i' # cs) =
     (case last_call r i cs of Some b \<Rightarrow> Some b
      | None \<Rightarrow> if r' = r \<and> i' = i then Some True else None)"
| "last_call r i (CallLeave r' i' # cs) =
     (case last_call r i cs of Some b \<Rightarrow> Some b
      | None \<Rightarrow> if r' = r \<and> i' = i then Some False else None)"

section \<open>Free-worker estimate (src/compute/components/common.go, workerFreeState)\<close>

text \<open>Go's integer division truncates towards zero.\<close>

definition go_quo :: "int \<Rightarrow> int \<Rightarrow> int" where
  "go_quo a b = sgn a * sgn b * (\<bar>a\<bar> div \<bar>b\<bar>)"

record workerFreeState =
  cc :: int
  cw :: int
  pcProc :: int

definition Free :: "workerFreeState \<Rightarrow> int" where
  "Free s = (if cc s = 0 then 0 else go_quo (cw s) (cc s) - pcProc s)"

text \<open>The snapshot the loop takes at the start of an iteration.\<close>

definition snapshot :: "Tracker \<Rightarrow> int \<Rightarrow> workerFreeState" where
  "snapshot t p = (case Count t of (c, w) \<Rightarrow> \<lparr>cc = c, cw = w, pcProc = p\<rparr>)"

section \<open>Message envelopes and binary data (src/compute/computation/computation.go, DDA API)\<close>

text \<open>
  \<^verbatim>\<open>type BinaryData []byte\<close>. A Go slice is either nil or holds bytes; \<open>None\<close> is the nil
  slice. \<^verbatim>\<open>len\<close>, \<^verbatim>\<open>string(...)\<close> and \<^verbatim>\<open>bytes.Equal\<close> do not tell nil from empty,
  a comparison with nil does.
\<close>

type_synonym BinaryData = "string option"

definition bytes_of :: "BinaryData \<Rightarrow> string" where
  "bytes_of d = (case d of None \<Rightarrow> [] | Some b \<Rightarrow> b)"

definition len :: "BinaryData \<Rightarrow> nat" where
  "len d = length (bytes_of d)"

definition bytes_Equal :: "BinaryData \<Rightarrow> BinaryData \<Rightarrow> bool" where
  "bytes_Equal a b = (bytes_of a = bytes_of b)"

definition ActionTypeCompute :: string where
  "ActionTypeCompute = ''ddaexmpls.compute.pcomp''"

definition ActionEventTypeAnnounceCoordinator :: string where
  "ActionEventTypeAnnounceCoordinator = ''ddaexmpls.compute.announceCoordinator''"

definition DataAnnounceJoin :: BinaryData where
  "DataAnnounceJoin = Some ''HELLO''"

definition DataAnnounceLeave :: BinaryData where
  "DataAnnounceLeave = Some ''BYE''"

record Action =
  Type :: string
  Id_action :: string
  Source :: string
  Params :: BinaryData

record ActionResult =
  Context :: string
  Data :: BinaryData

record Event =
  Type_event :: string
  Id_event :: string
  Source_event :: string
  Data_event :: BinaryData

record ComputeRequest =
  Name_req :: string
  Args :: "string list"

text \<open>
  A receive-only channel fed by a producer goroutine, as its receiver sees it: the
  values still to come, in order, and then the close; a producer that never stops
  gives an endless channel.
\<close>

codatatype 'a channel = Closed | Deliver 'a "'a channel"

fun channel_of :: "'a list \<Rightarrow> 'a channel" where
  "channel_of [] = Closed"
| "channel_of (x # xs) = Deliver x (channel_of xs)"

text \<open>
  The part of the \<^verbatim>\<open>Computation\<close> interface the components call with a result:
  \<^verbatim>\<open>Partition\<close> gives an error message or the channel of inputs,
  \<^verbatim>\<open>PartialCompute\<close> gives the output (\<open>None\<close> is nil). \<^verbatim>\<open>Accumulate\<close>
  and \<^verbatim>\<open>Finalize\<close> act on the state of the computation object; the coordinator's
  calls of them are recorded as effects.
\<close>

record Computation =
  Name :: string
  Partition :: "ComputeRequest \<Rightarrow> string + BinaryData channel"
  PartialCompute :: "BinaryData \<Rightarrow> BinaryData"

text \<open>
  Package registry (in src/compute/registry/pi/pi.go): \<^verbatim>\<open>map[string]cmpt.Computation\<close>;
  \<^verbatim>\<open>ComputationByName\<close> gives nil when the name is absent.
\<close>

type_synonym Registry = "string \<rightharpoonup> Computation"

definition ComputationByName :: "Registry \<Rightarrow> string \<Rightarrow> Computation option" where
  "ComputationByName r name = r name"

section \<open>Worker (package components: src/unnamed/part_006)\<close>

record Worker =
  w_id :: string
  w_reg :: Registry

text \<open>
  What the handling of one received message does to the outside: the tracker calls it
  makes and the action results it publishes, each in order.
\<close>

record handled =
  calls :: "tracker_call list"
  replies :: "ActionResult list"

text \<open>
  One round of the \<^verbatim>\<open>for ac := range acts\<close> loop of \<^verbatim>\<open>Worker.trackCoordinators\<close>.
  The worker has no tracker.
\<close>

definition Worker_trackCoordinators :: "Worker \<Rightarrow> Action \<Rightarrow> handled" where
  "Worker_trackCoordinators w ac =
     (if bytes_Equal (Params ac) DataAnnounceJoin
      then \<lparr>calls = [], replies = [\<lparr>Context = String_role RoleWorker, Data = Some (w_id w)\<rparr>]\<rparr>
      else \<lparr>calls = [], replies = []\<rparr>)"

text \<open>\<^verbatim>\<open>Worker.handlePartialComputation\<close>: the results passed to \<^verbatim>\<open>ac.Callback\<close>.\<close>

definition handlePartialComputation :: "Worker \<Rightarrow> Action \<Rightarrow> ActionResult list" where
  "handlePartialComputation w ac =
     (case ComputationByName (w_reg w) (Id_action ac) of
        None \<Rightarrow> []
      | Some cm \<Rightarrow>
          (case PartialCompute cm (Params ac) of
             None \<Rightarrow> []
           | Some out \<Rightarrow> [\<lparr>Context = w_id w, Data = Some out\<rparr>]))"

section \<open>Coordinator: lifecycle tracking (src/compute/components/common.go)\<close>

record Coordinator =
  c_id :: string
  c_reg :: Registry
  c_tracker :: Tracker

text \<open>
  One round of the receive loop of \<^verbatim>\<open>Coordinator.trackCoordinators\<close>: what it does to
  the outside, and the coordinator afterwards or the panic that ends the goroutine.
\<close>

definition Coordinator_trackCoordinators ::
  "Coordinator \<Rightarrow> Action \<Rightarrow> handled \<times> (panic + Coordinator)" where
  "Coordinator_trackCoordinators c ac =
     (let src = Source ac; ident = Id_action ac; params = Params ac in
      if bytes_Equal params DataAnnounceJoin then
        if ident \<noteq> c_id c then
          (case TryJoin (ParseComponentRole src) ident (c_tracker c) of
             Inl p \<Rightarrow>
               (\<lparr>calls = [CallTryJoin (ParseComponentRole src) ident], replies = []\<rparr>, Inl p)
           | Inr (b, t') \<Rightarrow>
               (\<lparr>calls = [CallTryJoin (ParseComponentRole src) ident],
                 replies = [\<lparr>Context = String_role RoleCoordinator, Data = Some (c_id c)\<rparr>]\<rparr>,
                Inr (c\<lparr>c_tracker := t'\<rparr>)))
        else (\<lparr>calls = [], replies = []\<rparr>, Inr c)
      else
        (\<lparr>calls = [CallLeave (ParseComponentRole src) ident], replies = []\<rparr>,
         Inr (c\<lparr>c_tracker := Leave (ParseComponentRole src) ident (c_tracker c)\<rparr>)))"

text \<open>
  One round of the receive loop in \<^verbatim>\<open>Coordinator.announce\<close>: a reply to the join
  announcement is tracked under the role its context names.
\<close>

definition announce_recv :: "Coordinator \<Rightarrow> ActionResult \<Rightarrow> panic + Coordinator" where
  "announce_recv c ar =
     (let ident = bytes_of (Data ar) in
      case TryJoin (ParseComponentRole (Context ar)) ident (c_tracker c) of
        Inl p \<Rightarrow> Inl p
      | Inr (b, t') \<Rightarrow> Inr (c\<lparr>c_tracker := t'\<rparr>))"

text \<open>One round of the receive loop of \<^verbatim>\<open>Coordinator.trackWorkers\<close>.\<close>

definition trackWorkers_recv :: "Coordinator \<Rightarrow> Event \<Rightarrow> panic + Coordinator" where
  "trackWorkers_recv c evt =
     (let src = Source_event evt in
      if bytes_Equal (Data_event evt) DataAnnounceJoin then
        (case TryJoin (ParseComponentRole src) (Id_event evt) (c_tracker c) of
           Inl p \<Rightarrow> Inl p
         | Inr (b, t') \<Rightarrow> Inr (c\<lparr>c_tracker := t'\<rparr>))
      else Inr (c\<lparr>c_tracker := Leave (ParseComponentRole src) (Id_event evt) (c_tracker c)\<rparr>))"

text \<open>
  The messages the three tracking goroutines receive, and their handling one after
  the other (the tracker's lock orders them); a panic in one of them ends the process.
\<close>

datatype tracking_msg =
  AnnounceReply ActionResult
| CoordinatorAnnouncement Action
| WorkerAnnouncement Event

fun handle_msg :: "tracking_msg \<Rightarrow> Coordinator \<Rightarrow> panic + Coordinator" where
  "handle_msg (AnnounceReply ar) c = announce_recv c ar"
| "handle_msg (CoordinatorAnnouncement ac) c = snd (Coordinator_trackCoordinators c ac)"
| "handle_msg (WorkerAnnouncement evt) c = trackWorkers_recv c evt"

fun run_tracking :: "tracking_msg list \<Rightarrow> Coordinator \<Rightarrow> panic + Coordinator" where
  "run_tracking [] c = Inr c"
| "run_tracking (m # ms) c =
     (case handle_msg m c of Inl p \<Rightarrow> Inl p | Inr c' \<Rightarrow> run_tracking ms c')"

section \<open>Coordinator: the Partition-Compute-Accumulate loop (src/compute/components/common.go)\<close>

text \<open>The gRPC status code of an error, as \<^verbatim>\<open>status.Code(err)\<close> reads it.\<close>

datatype status_code = Canceled | DeadlineExceeded | Unavailable | Unknown

record partialResult =
  data :: BinaryData
  workerId :: string
  resubmit :: "status_code option"

text \<open>
  What the DDA client does for one published partial computation: publishing fails,
  receiving the result fails, or one result arrives.
\<close>

datatype rpc_outcome = PublishFailed status_code | RecvFailed status_code | RecvOk ActionResult

text \<open>
  \<^verbatim>\<open>performPartialComputation\<close>: the value the helper goroutine sends on \<^verbatim>\<open>completed\<close>,
  \<open>None\<close> when it returns without sending.
\<close>

fun performPartialComputation :: "BinaryData \<Rightarrow> rpc_outcome \<Rightarrow> partialResult option" where
  "performPartialComputation input (PublishFailed err) =
     (if err = Canceled then None
      else Some \<lparr>data = input, workerId = [], resubmit = Some err\<rparr>)"
| "performPartialComputation input (RecvFailed err) =
     (if err = Canceled then None
      else Some \<lparr>data = input, workerId = [], resubmit = Some err\<rparr>)"
| "performPartialComputation input (RecvOk ar) =
     Some \<lparr>data = Data ar, workerId = Context ar, resubmit = None\<rparr>"

text \<open>
  What the loop goroutine does to the outside: it starts a helper for an input, calls
  \<^verbatim>\<open>Accumulate\<close> and \<^verbatim>\<open>Finalize\<close> of the computation, writes to the request's
  \<^verbatim>\<open>OutputWriter\<close>, prints to standard output.
\<close>

datatype effect =
  Dispatched BinaryData
| Accumulated BinaryData
| Finalized
| Written string
| Printed string

text \<open>
  The variables of the loop goroutine. \<open>inp\<close> is the variable \<^verbatim>\<open>in\<close>: \<open>None\<close> once it
  is set to nil, otherwise the channel with what it still delivers.
  \<open>pcResubmit\<close> is the content of the buffered channel \<^verbatim>\<open>pcResubmit\<close>,
  \<open>helpers\<close> the inputs of the helper goroutines that have not sent their result, and
  \<open>effects\<close> what it has done so far.
\<close>

record loop_state =
  inp :: "BinaryData channel option"
  pcProcL :: int
  pcResubmit :: "BinaryData list"
  failFast :: bool
  helpers :: "BinaryData list"
  effects :: "effect list"

definition pcResubmit_cap :: nat where
  "pcResubmit_cap = 100"

text \<open>
  The case the \<^verbatim>\<open>select\<close> of an iteration takes. A completion names the helper (by
  its input) and what the DDA client did for it.
\<close>

datatype select_case =
  CtxDone
| RecvIn
| RecvResubmit
| RecvCompleted BinaryData rpc_outcome
| Default

datatype control = Continue loop_state | Break loop_state

fun state_of :: "control \<Rightarrow> loop_state" where
  "state_of (Continue s) = s"
| "state_of (Break s) = s"

fun broke :: "control \<Rightarrow> bool" where
  "broke (Continue s) = False"
| "broke (Break s) = True"

text \<open>Starting a helper: \<^verbatim>\<open>pcProc++\<close> and \<^verbatim>\<open>go c.performPartialComputation(...)\<close>.\<close>

definition dispatch :: "BinaryData \<Rightarrow> loop_state \<Rightarrow> loop_state" where
  "dispatch input s =
     s\<lparr>pcProcL := pcProcL s + 1, helpers := helpers s @ [input],
       effects := effects s @ [Dispatched input]\<rparr>"

text \<open>The \<^verbatim>\<open>case res := <-pcCompleted\<close> branch, after \<^verbatim>\<open>pcProc--\<close>.\<close>

definition completed :: "partialResult \<Rightarrow> loop_state \<Rightarrow> control" where
  "completed res s =
     (if resubmit res \<noteq> None then
        if length (pcResubmit s) < pcResubmit_cap
        then Continue (s\<lparr>pcResubmit := pcResubmit s @ [data res]\<rparr>)
        else Break (s\<lparr>failFast := True\<rparr>)
      else if len (data res) = 0 then Break (s\<lparr>failFast := True\<rparr>)
      else
        let s' = s\<lparr>effects := effects s @ [Accumulated (data res)]\<rparr> in
        if inp s' = None \<and> pcProcL s' = 0 \<and> length (pcResubmit s') = 0
        then Break s' else Continue s')"

text \<open>
  One iteration of the \<^verbatim>\<open>for\<close> loop, with the tracker as it is when the iteration
  reads it. \<open>None\<close>: the \<^verbatim>\<open>select\<close> cannot take that case in this state (its channel is
  nil, empty, or has no sender; \<^verbatim>\<open>default\<close> needs every other case to block).
\<close>

definition iteration :: "Tracker \<Rightarrow> select_case \<Rightarrow> loop_state \<Rightarrow> control option" where
  "iteration t sc s =
     (let free = Free (snapshot t (pcProcL s)) in
      case sc of
        CtxDone \<Rightarrow> Some (Break (s\<lparr>failFast := True\<rparr>))
      | RecvIn \<Rightarrow>
          if free > 0 then
            (case inp s of
               None \<Rightarrow> None
             | Some Closed \<Rightarrow>
                 let s' = s\<lparr>inp := None\<rparr> in
                 if pcProcL s' = 0 \<and> length (pcResubmit s') = 0
                 then Some (Break s') else Some (Continue s')
             | Some (Deliver input rest) \<Rightarrow>
                 Some (Continue (dispatch input (s\<lparr>inp := Some rest\<rparr>))))
          else None
      | RecvResubmit \<Rightarrow>
          if free > 0 then
            (case pcResubmit s of
               [] \<Rightarrow> None
             | input # rest \<Rightarrow> Some (Continue (dispatch input (s\<lparr>pcResubmit := rest\<rparr>))))
          else None
      | RecvCompleted input oc \<Rightarrow>
          if input \<in> set (helpers s) then
            (case performPartialComputation input oc of
               None \<Rightarrow> None
             | Some res \<Rightarrow>
                 Some (completed res
                   (s\<lparr>pcProcL := pcProcL s - 1, helpers := remove1 input (helpers s)\<rparr>)))
          else None
      | Default \<Rightarrow>
          if free > 0 \<and> pcResubmit s \<noteq> [] then None else Some (Continue s))"

text \<open>
  The loop over a schedule: for each iteration the tracker it reads and the case its
  \<^verbatim>\<open>select\<close> takes. The result is \<open>Break\<close> when the schedule ends with the iteration
  that leaves the loop, \<open>Continue\<close> when the loop is still running after it, \<open>None\<close>
  when the schedule is not one the loop can follow.
\<close>

fun run_loop :: "(Tracker \<times> select_case) list \<Rightarrow> loop_state \<Rightarrow> control option" where
  "run_loop [] s = Some (Continue s)"
| "run_loop ((t, sc) # rest) s =
     (case iteration t sc s of
        None \<Rightarrow> None
      | Some (Break s') \<Rightarrow> if rest = [] then Some (Break s') else None
      | Some (Continue s') \<Rightarrow> run_loop rest s')"

text \<open>\<^verbatim>\<open>%v\<close> of a \<^verbatim>\<open>[]string\<close>: the elements, separated by spaces, in brackets.\<close>

fun join_spaces :: "string list \<Rightarrow> string" where
  "join_spaces [] = []"
| "join_spaces [a] = a"
| "join_spaces (a # b # rest) = a @ '' '' @ join_spaces (b # rest)"

definition fmt_args :: "string list \<Rightarrow> string" where
  "fmt_args as = ''['' @ join_spaces as @ '']''"

definition failed_message :: "ComputeRequest \<Rightarrow> string" where
  "failed_message req = ''Computation '' @ Name_req req @ fmt_args (Args req) @ '' failed'' @ [CHR 0x0A]"

text \<open>The code after the loop.\<close>

definition after_loop :: "ComputeRequest \<Rightarrow> loop_state \<Rightarrow> effect list" where
  "after_loop req s =
     (if \<not> failFast s then effects s @ [Finalized]
      else effects s @ [Written (failed_message req)])"

definition loop_init :: "BinaryData channel \<Rightarrow> loop_state" where
  "loop_init ins =
     \<lparr>inp = Some ins, pcProcL = 0, pcResubmit = [], failFast = False, helpers = [], effects = []\<rparr>"

text \<open>
  The loop goroutine under a schedule: its effects, and whether it has ended (then it
  cancels the context and signals \<^verbatim>\<open>finalized\<close>).
\<close>

definition loop_goroutine ::
  "ComputeRequest \<Rightarrow> BinaryData channel \<Rightarrow> (Tracker \<times> select_case) list \<Rightarrow>
     (effect list \<times> bool) option" where
  "loop_goroutine req ins sched =
     (case run_loop sched (loop_init ins) of
        None \<Rightarrow> None
      | Some (Continue s) \<Rightarrow> Some (effects s, False)
      | Some (Break s) \<Rightarrow> Some (after_loop req s, True))"

text \<open>
  \<^verbatim>\<open>partitionAccumulate\<close>: the error it returns (as its message) or the channel of
  inputs it starts the loop goroutine on, with what it prints.
\<close>

definition partitionAccumulate ::
  "Coordinator \<Rightarrow> ComputeRequest \<Rightarrow> effect list \<times> (string + BinaryData channel)" where
  "partitionAccumulate c req =
     (case ComputationByName (c_reg c) (Name_req req) of
        None \<Rightarrow>
          (let err = Name_req req @ '' is not defined'' in
           ([Printed (err @ [CHR 0x0A])], Inl err))
      | Some cm \<Rightarrow>
          (case Partition cm req of
             Inl err \<Rightarrow> ([Printed (''Invalid input arguments: '' @ err @ [CHR 0x0A])], Inl err)
           | Inr ins \<Rightarrow> ([], Inr ins)))"

section \<open>The coordinator process (main of the coordinator, in src/compute/cmd/worker/worker.go)\<close>

text \<open>
  What the surroundings of one run decide: whether the gRPC connection and the two
  subscriptions succeed, whether \<^verbatim>\<open>PublishAction\<close> gives a stream for the join and for
  the leave announcement, the messages the tracking goroutines handle before the
  process ends, and the schedule of the loop goroutine.
\<close>

record run_env =
  grpc_ok :: bool
  sub_coordinators_ok :: bool
  sub_workers_ok :: bool
  announce_join_ok :: bool
  announce_leave_ok :: bool
  received :: "tracking_msg list"
  schedule :: "(Tracker \<times> select_case) list"

definition NewCoordinator :: "string \<Rightarrow> Registry \<Rightarrow> Coordinator" where
  "NewCoordinator new_id registry = \<lparr>c_id = new_id, c_reg = registry, c_tracker = NewTracker\<rparr>"

text \<open>
  \<^verbatim>\<open>Coordinator.Start\<close>: the effects on the output, and a panic or whether
  \<^verbatim>\<open>completed\<close> gets closed. Every early \<^verbatim>\<open>return\<close> closes it (deferred).
  \<^verbatim>\<open>announce\<close> calls \<^verbatim>\<open>stream.Header()\<close> also after a failed \<^verbatim>\<open>PublishAction\<close>, on
  the nil stream. After a started loop \<^verbatim>\<open>Start\<close> waits for the cancelled context and
  the \<^verbatim>\<open>finalized\<close> signals, which the model takes as given once the loop goroutine
  has ended (its deferred \<^verbatim>\<open>cancel\<close> ends the tracking goroutines), and announces
  the leave.
\<close>

definition Start ::
  "Coordinator \<Rightarrow> ComputeRequest \<Rightarrow> run_env \<Rightarrow> effect list \<times> (panic + bool)" where
  "Start c0 req env =
     (case TryJoin RoleCoordinator (c_id c0) (c_tracker c0) of
        Inl p \<Rightarrow> ([], Inl p)
      | Inr (b, t) \<Rightarrow>
          let c = c0\<lparr>c_tracker := t\<rparr> in
          if \<not> grpc_ok env then ([], Inr True)
          else if \<not> sub_coordinators_ok env then ([], Inr True)
          else if \<not> sub_workers_ok env then ([], Inr True)
          else if \<not> announce_join_ok env then ([], Inl NilDereference)
          else
            (case partitionAccumulate c req of
               (out, Inl err) \<Rightarrow>
                 (case run_tracking (received env) c of
                    Inl p \<Rightarrow> (out, Inl p)
                  | Inr c' \<Rightarrow> (out, Inr True))
             | (out, Inr ins) \<Rightarrow>
                 (case loop_goroutine req ins (schedule env) of
                    None \<Rightarrow> (out, Inr False)
                  | Some (effs, ended) \<Rightarrow>
                      (case run_tracking (received env) c of
                         Inl p \<Rightarrow> (out @ effs, Inl p)
                       | Inr c' \<Rightarrow>
                           if \<not> ended then (out @ effs, Inr False)
                           else if \<not> announce_leave_ok env then (out @ effs, Inl NilDereference)
                           else (out @ effs, Inr True)))))"

text \<open>
  The command line as \<^verbatim>\<open>flag.Parse()\<close> leaves it: the values of the flags \<^verbatim>\<open>-d\<close>,
  \<^verbatim>\<open>-h\<close>, \<^verbatim>\<open>-l\<close> and the remaining arguments \<^verbatim>\<open>flag.Args()\<close>.
\<close>

record cmdline =
  flag_d :: string
  flag_h :: bool
  flag_l :: bool
  flag_Args :: "string list"

definition flag_defaults :: cmdline where
  "flag_defaults = \<lparr>flag_d = '':8900'', flag_h = False, flag_l = False, flag_Args = []\<rparr>"

text \<open>\<^verbatim>\<open>strconv.ParseBool\<close>, which sets a boolean flag given as \<^verbatim>\<open>-name=value\<close>.\<close>

definition ParseBool :: "string \<Rightarrow> bool option" where
  "ParseBool str =
     (if str \<in> set [''1'', ''t'', ''T'', ''true'', ''TRUE'', ''True''] then Some True
      else if str \<in> set [''0'', ''f'', ''F'', ''false'', ''FALSE'', ''False''] then Some False
      else None)"

text \<open>
  \<^verbatim>\<open>parseOne\<close> of the flag library (package flag), for the flag set of this
  \<^verbatim>\<open>main\<close>; \<open>flag_Args\<close> holds the arguments still to parse. An argument that is no
  flag ends the flags, as \<^verbatim>\<open>--\<close> does; the name of a flag runs up to the first
  \<^verbatim>\<open>=\<close>; a boolean flag takes its value only after \<^verbatim>\<open>=\<close>, the string flag also from
  the next argument; the undefined flag \<^verbatim>\<open>-help\<close> gives \<^verbatim>\<open>ErrHelp\<close>.
\<close>

datatype flag_error = ErrHelp | ErrFlag

datatype parse_one = Seen cmdline | NotSeen cmdline | Failed flag_error

definition set_flag :: "string \<Rightarrow> string \<Rightarrow> bool \<Rightarrow> string list \<Rightarrow> cmdline \<Rightarrow> parse_one" where
  "set_flag name val hasValue rest cl =
     (if name = ''h'' \<or> name = ''l'' then
        (case (if hasValue then ParseBool val else Some True) of
           None \<Rightarrow> Failed ErrFlag
         | Some v \<Rightarrow>
             if name = ''h'' then Seen (cl\<lparr>flag_h := v, flag_Args := rest\<rparr>)
             else Seen (cl\<lparr>flag_l := v, flag_Args := rest\<rparr>))
      else if name = ''d'' then
        (if hasValue then Seen (cl\<lparr>flag_d := val, flag_Args := rest\<rparr>)
         else
           (case rest of
              [] \<Rightarrow> Failed ErrFlag
            | v # rest' \<Rightarrow> Seen (cl\<lparr>flag_d := v, flag_Args := rest'\<rparr>)))
      else if name = ''help'' then Failed ErrHelp
      else Failed ErrFlag)"

definition parseOne :: "cmdline \<Rightarrow> parse_one" where
  "parseOne cl =
     (case flag_Args cl of
        [] \<Rightarrow> NotSeen cl
      | s # rest \<Rightarrow>
          if length s < 2 \<or> s ! 0 \<noteq> CHR ''-'' then NotSeen cl
          else if s = ''--'' then NotSeen (cl\<lparr>flag_Args := rest\<rparr>)
          else
            let numMinuses = (if s ! 1 = CHR ''-'' then 2 else 1);
                name0 = drop numMinuses s
            in
            if name0 = [] \<or> hd name0 = CHR ''-'' \<or> hd name0 = CHR ''='' then Failed ErrFlag
            else
              set_flag (takeWhile (\<lambda>c. c \<noteq> CHR ''='') name0)
                (drop 1 (dropWhile (\<lambda>c. c \<noteq> CHR ''='') name0))
                (CHR ''='' \<in> set name0) rest cl)"

lemma parseOne_Seen:
  assumes "parseOne cl = Seen cl'"
  shows "length (flag_Args cl') < length (flag_Args cl)"
proof (cases "flag_Args cl")
  case Nil
  with assms show ?thesis by (simp add: parseOne_def)
next
  case (Cons s rest)
  with assms obtain name val hasValue where "set_flag name val hasValue rest cl = Seen cl'"
    by (auto simp: parseOne_def Let_def split: if_splits)
  then have "length (flag_Args cl') \<le> length rest"
    by (auto simp: set_flag_def split: if_splits option.splits list.splits)
  with Cons show ?thesis by simp
qed

text \<open>
  The loop of \<^verbatim>\<open>FlagSet.Parse\<close>: it calls \<^verbatim>\<open>parseOne\<close> until no flag is seen or
  an error occurs.
\<close>

function flag_loop :: "cmdline \<Rightarrow> flag_error + cmdline" where
  "flag_loop cl =
     (case parseOne cl of
        Seen cl' \<Rightarrow> flag_loop cl'
      | NotSeen cl' \<Rightarrow> Inr cl'
      | Failed err \<Rightarrow> Inl err)"
  by pat_completeness auto
termination
  by (relation "measure (\<lambda>cl. length (flag_Args cl))") (auto dest: parseOne_Seen)

declare flag_loop.simps [simp del]

text \<open>
  \<^verbatim>\<open>flag.Parse()\<close> on the arguments after the program name, with the error handling
  \<^verbatim>\<open>ExitOnError\<close> of the command line's flag set: \<open>Inl\<close> is the status it exits
  the process with, 0 for \<^verbatim>\<open>ErrHelp\<close> and 2 for another error.
\<close>

definition flag_Parse :: "string list \<Rightarrow> int + cmdline" where
  "flag_Parse argv =
     (case flag_loop (flag_defaults\<lparr>flag_Args := argv\<rparr>) of
        Inl err \<Rightarrow> Inl (if err = ErrHelp then 0 else 2)
      | Inr cl \<Rightarrow> Inr cl)"

definition flag_Arg0 :: "cmdline \<Rightarrow> string" where
  "flag_Arg0 cl = (case flag_Args cl of [] \<Rightarrow> [] | a # as \<Rightarrow> a)"

text \<open>
  \<^verbatim>\<open>main\<close> of the coordinator on the arguments after the program name: the effects on
  the output and the exit status of the process, \<open>None\<close> while it runs. The ways out
  are the exit of \<^verbatim>\<open>flag.Parse()\<close>, \<^verbatim>\<open>os.Exit(0)\<close> after the usage, the \<^verbatim>\<open>return\<close>
  from \<^verbatim>\<open>main\<close> once \<^verbatim>\<open>completed\<close> is closed (status 0), and a panic of one of the
  goroutines (status 2 of the Go runtime). The text of \<^verbatim>\<open>usage()\<close>, the messages of
  the flag library and the signal handler are not part of it.
\<close>

definition coordinator_main ::
  "string \<Rightarrow> Registry \<Rightarrow> string list \<Rightarrow> run_env \<Rightarrow> effect list \<times> int option" where
  "coordinator_main new_id registry argv env =
     (case flag_Parse argv of
        Inl status \<Rightarrow> ([], Some status)
      | Inr cl \<Rightarrow>
          let computation = flag_Arg0 cl in
          if flag_h cl \<or> computation = [] then ([], Some 0)
          else
            let request = \<lparr>Name_req = computation, Args = tl (flag_Args cl)\<rparr>;
                banner = Printed (''Starting a coordinator to compute '' @ Name_req request
                            @ fmt_args (Args request) @ ''...'' @ [CHR 0x0A])
            in (case Start (NewCoordinator new_id registry) request env of
                  (effs, Inl p) \<Rightarrow> (banner # effs, Some 2)
                | (effs, Inr True) \<Rightarrow> (banner # effs, Some 0)
                | (effs, Inr False) \<Rightarrow> (banner # effs, None)))"

section \<open>Decimal conversion of the Go library (strconv, 64-bit platform)\<close>

text \<open>
  \<^verbatim>\<open>strconv.ParseUint(s, 10, 0)\<close> as the library computes it: the empty string is a
  syntax error; each byte must be a digit below the base (letters stand for digits
  from 10 on, \<^verbatim>\<open>lower(c) = c | 0x20\<close> lies in a..z exactly for the letters); the
  value is built in a \<^verbatim>\<open>uint64\<close>, with a range error once it would pass
  \<^verbatim>\<open>1<<64 - 1\<close>. \<^verbatim>\<open>uint64\<close> values are naturals below \<open>2 ^ 64\<close>, the wrap-around
  written out.
\<close>

datatype NumError = ErrSyntax | ErrRange

definition maxUint64 :: nat where
  "maxUint64 = 2 ^ 64 - 1"

definition digit_of :: "char \<Rightarrow> nat option" where
  "digit_of c =
     (let k = (of_char c :: nat) in
      if 48 \<le> k \<and> k \<le> 57 then Some (k - 48)
      else if 65 \<le> k \<and> k \<le> 90 then Some (k + 32 - 97 + 10)
      else if 97 \<le> k \<and> k \<le> 122 then Some (k - 97 + 10)
      else None)"

fun ParseUint_loop :: "nat \<Rightarrow> string \<Rightarrow> NumError + nat" where
  "ParseUint_loop n [] = Inr n"
| "ParseUint_loop n (c # cs) =
     (case digit_of c of
        None \<Rightarrow> Inl ErrSyntax
      | Some d \<Rightarrow>
          if d \<ge> 10 then Inl ErrSyntax
          else if n \<ge> maxUint64 div 10 + 1 then Inl ErrRange
          else
            let n' = (n * 10) mod 2 ^ 64;
                n1 = (n' + d) mod 2 ^ 64
            in if n1 < n' \<or> n1 > maxUint64 then Inl ErrRange
               else ParseUint_loop n1 cs)"

definition ParseUint :: "string \<Rightarrow> NumError + nat" where
  "ParseUint s = (if s = [] then Inl ErrSyntax else ParseUint_loop 0 s)"

text \<open>\<^verbatim>\<open>strconv.FormatUint(i, 10)\<close>: the decimal digits of \<open>i\<close>, no leading zero.\<close>

definition digit_char :: "nat \<Rightarrow> char" where
  "digit_char d = ''0123456789'' ! d"

fun FormatUint :: "nat \<Rightarrow> string" where
  "FormatUint i = (if i < 10 then [digit_char i] else FormatUint (i div 10) @ [digit_char (i mod 10)])"

declare FormatUint.simps [simp del]

text \<open>The conversion \<^verbatim>\<open>int64(n)\<close> of a \<^verbatim>\<open>uint64\<close>.\<close>

definition int64_of :: "nat \<Rightarrow> int" where
  "int64_of n = (if n < 2 ^ 63 then int n else int n - 2 ^ 64)"

text \<open>
  What the words ``a non-negative decimal integer'' say of an argument: a non-empty
  string of decimal digits, and the number it denotes (of any size).
\<close>

fun decimal_loop :: "nat \<Rightarrow> string \<Rightarrow> nat option" where
  "decimal_loop n [] = Some n"
| "decimal_loop n (c # cs) =
     (let k = (of_char c :: nat) in
      if 48 \<le> k \<and> k \<le> 57 then decimal_loop (n * 10 + (k - 48)) cs else None)"

definition decimal_value :: "string \<Rightarrow> nat option" where
  "decimal_value s = (if s = [] then None else decimal_loop 0 s)"

section \<open>The factorial computation (package fac: src/unnamed/part_009)\<close>

text \<open>The fields of the computation object once \<^verbatim>\<open>Partition\<close> has set them.\<close>

record FacComputation =
  request :: ComputeRequest
  result :: int

definition fac_Name :: string where
  "fac_Name = ''fac''"

text \<open>
  The producer goroutine of \<^verbatim>\<open>Partition\<close>,
  \<^verbatim>\<open>for i := uint64(2); i <= n; i++ { in <- ... }\<close> and then \<^verbatim>\<open>close(in)\<close>, as the
  channel it feeds.
\<close>

primcorec fac_inputs :: "nat \<Rightarrow> nat \<Rightarrow> BinaryData channel" where
  "fac_inputs i n =
     (if i \<le> n
      then Deliver (Some (FormatUint i)) (fac_inputs ((i + 1) mod 2 ^ 64) n)
      else Closed)"

definition fac_Partition :: "ComputeRequest \<Rightarrow> string + (FacComputation \<times> BinaryData channel)" where
  "fac_Partition req =
     (if length (Args req) \<noteq> 1 then Inl ''one integer argument required''
      else
        case ParseUint (Args req ! 0) of
          Inl err \<Rightarrow> Inl ''one non-negative integer argument required''
        | Inr n \<Rightarrow> Inr (\<lparr>request = req, result = 1\<rparr>, fac_inputs 2 n))"

definition fac_PartialCompute :: "BinaryData \<Rightarrow> BinaryData" where
  "fac_PartialCompute input = input"

text \<open>
  \<^verbatim>\<open>Accumulate\<close>: the object afterwards, and the decoding error it reports on the
  \<^verbatim>\<open>OutputWriter\<close> instead of multiplying.
\<close>

definition fac_Accumulate :: "BinaryData \<Rightarrow> FacComputation \<Rightarrow> FacComputation \<times> NumError option" where
  "fac_Accumulate output c =
     (case ParseUint (bytes_of output) of
        Inl err \<Rightarrow> (c, Some err)
      | Inr n \<Rightarrow> (c\<lparr>result := result c * int64_of n\<rparr>, None))"

text \<open>\<^verbatim>\<open>Accumulate\<close> called on a sequence of partial outputs, one after the other.\<close>

definition accumulate_all :: "BinaryData list \<Rightarrow> FacComputation \<Rightarrow> FacComputation" where
  "accumulate_all outs c = fold (\<lambda>out c. fst (fac_Accumulate out c)) outs c"

text \<open>
  The factorial computation behind the \<^verbatim>\<open>Computation\<close> interface, and the registry
  with it (of the three computations \<^verbatim>\<open>NewRegistry\<close> registers, the one modelled).
\<close>

definition fac_computation :: Computation where
  "fac_computation =
     \<lparr>Name = fac_Name,
      Partition = (\<lambda>req. case fac_Partition req of Inl err \<Rightarrow> Inl err | Inr (c, ch) \<Rightarrow> Inr ch),
      PartialCompute = fac_PartialCompute\<rparr>"

definition fac_registry :: Registry where
  "fac_registry = [fac_Name \<mapsto> fac_computation]"

text \<open>\<^verbatim>\<open>%v\<close> of a \<^verbatim>\<open>*big.Int\<close>.\<close>

definition fmt_int :: "int \<Rightarrow> string" where
  "fmt_int i = (if i < 0 then ''-'' @ FormatUint (nat (- i)) else FormatUint (nat i))"

text \<open>The result line \<^verbatim>\<open>Finalize\<close> writes (after the line with the elapsed time).\<close>

definition fac_Finalize :: "FacComputation \<Rightarrow> string" where
  "fac_Finalize c =
     ''Computation '' @ Name_req (request c) @ fmt_args (Args (request c)) @ '' = ''
       @ fmt_int (result c) @ [CHR 0x0A]"

section \<open>Notions the claims are stated with\<close>

text \<open>
  The fair share \<open>W / C\<close> of a tracker snapshot, the number of partial computations
  a coordinator aims at (\<open>0\<close> without a coordinator).
\<close>

definition fair_share :: "Tracker \<Rightarrow> int" where
  "fair_share t = (case Count t of (c, w) \<Rightarrow> if c = 0 then 0 else go_quo w c)"

text \<open>
  The fail-fast conditions of an iteration: the context is cancelled, a completion
  asks for a resubmission while the queue is full, or a completion carries empty
  result data.
\<close>

fun fail_fast_case :: "select_case \<Rightarrow> loop_state \<Rightarrow> bool" where
  "fail_fast_case CtxDone s = True"
| "fail_fast_case (RecvCompleted input oc) s =
     (case performPartialComputation input oc of
        None \<Rightarrow> False
      | Some res \<Rightarrow>
          (resubmit res \<noteq> None \<and> length (pcResubmit s) \<ge> pcResubmit_cap) \<or>
          (resubmit res = None \<and> len (data res) = 0))"
| "fail_fast_case RecvIn s = False"
| "fail_fast_case RecvResubmit s = False"
| "fail_fast_case Default s = False"

text \<open>The clean end of the loop: input drained, nothing to resubmit, nothing in flight.\<close>

definition clean :: "loop_state \<Rightarrow> bool" where
  "clean s \<longleftrightarrow> inp s = None \<and> pcResubmit s = [] \<and> pcProcL s = 0"

text \<open>
  The factor \<^verbatim>\<open>Accumulate\<close> multiplies the result with for a partial output (\<open>1\<close> for
  an output it skips).
\<close>

definition factor :: "BinaryData \<Rightarrow> int" where
  "factor out = (case ParseUint (bytes_of out) of Inl err \<Rightarrow> 1 | Inr n \<Rightarrow> int64_of n)"

text \<open>The effects of the iterations themselves: helpers started and outputs accumulated.\<close>

definition loop_effect :: "effect \<Rightarrow> bool" where
  "loop_effect e = (case e of Dispatched x \<Rightarrow> True | Accumulated x \<Rightarrow> True | _ \<Rightarrow> False)"

section \<open>Properties of the tracker and of the estimate\<close>

lemma go_quo_nonneg: "0 \<le> a \<Longrightarrow> 0 < b \<Longrightarrow> go_quo a b = a div b"
  by (cases "a = 0") (simp_all add: go_quo_def)

lemma TryJoin_defined:
  assumes "role \<noteq> RoleUndefined"
  shows "TryJoin role ident t =
           Inr (\<not> tracked role ident t,
                if tracked role ident t then t
                else store_set role (finsert ident (the (select_set role t))) t)"
  using assms by (cases role) (simp_all add: TryJoin_def)

lemma tracked_TryJoin:
  assumes "TryJoin role ident t = Inr (b, t')"
  shows "tracked r i t' \<longleftrightarrow> (r = role \<and> i = ident) \<or> tracked r i t"
  using assms by (cases role; cases r) (auto simp: TryJoin_def split: if_splits)

lemma tracked_Leave:
  "tracked r i (Leave role ident t) \<longleftrightarrow> tracked r i t \<and> \<not> (r = role \<and> i = ident)"
  by (cases role; cases r) auto

lemma Leave_absent: "\<not> tracked role ident t \<Longrightarrow> Leave role ident t = t"
  by (cases role) simp_all

lemma run_calls_defined:
  assumes "\<forall>c \<in> set cs. call_role c \<noteq> RoleUndefined"
  shows "\<exists>t'. run_calls cs t = Inr t'"
  using assms
proof (induction cs arbitrary: t)
  case Nil
  then show ?case by simp
next
  case (Cons c cs)
  then have r: "call_role c \<noteq> RoleUndefined" by simp
  have "\<exists>t1. run_call c t = Inr t1"
  proof (cases c)
    case (CallTryJoin r i)
    with r show ?thesis by (simp add: TryJoin_defined)
  next
    case (CallLeave r i)
    then show ?thesis by simp
  qed
  then obtain t1 where "run_call c t = Inr t1" ..
  moreover from Cons have "\<exists>t'. run_calls cs t1 = Inr t'" by simp
  ultimately show ?case by simp
qed

lemma run_calls_last:
  assumes "run_calls cs t = Inr t'" and "r \<noteq> RoleUndefined"
  shows "tracked r i t' \<longleftrightarrow> (case last_call r i cs of None \<Rightarrow> tracked r i t | Some b \<Rightarrow> b)"
  using assms
proof (induction cs arbitrary: t)
  case Nil
  then show ?case by simp
next
  case (Cons c cs)
  from Cons.prems obtain t1 where c: "run_call c t = Inr t1" and rest: "run_calls cs t1 = Inr t'"
    by (auto split: sum.splits)
  have IH: "tracked r i t' \<longleftrightarrow> (case last_call r i cs of None \<Rightarrow> tracked r i t1 | Some b \<Rightarrow> b)"
    using Cons.IH [OF rest Cons.prems(2)] .
  show ?case
  proof (cases c)
    case (CallTryJoin r' i')
    with c obtain b where "TryJoin r' i' t = Inr (b, t1)"
      by (auto split: sum.splits)
    then have "tracked r i t1 \<longleftrightarrow> (r = r' \<and> i = i') \<or> tracked r i t"
      by (rule tracked_TryJoin)
    with IH CallTryJoin show ?thesis
      by (auto split: option.splits)
  next
    case (CallLeave r' i')
    with c have "t1 = Leave r' i' t" by simp
    then have "tracked r i t1 \<longleftrightarrow> tracked r i t \<and> \<not> (r = r' \<and> i = i')"
      by (simp add: tracked_Leave)
    with IH CallLeave show ?thesis
      by (auto split: option.splits)
  qed
qed

section \<open>Properties of the loop\<close>

lemma Free_positive:
  assumes "0 < Free (snapshot t p)"
  shows "p < fair_share t"
  using assms by (simp add: Free_def snapshot_def fair_share_def split: prod.splits if_splits)

lemma completed_cases:
  "completed res s =
     (if resubmit res \<noteq> None then
        if length (pcResubmit s) < pcResubmit_cap
        then Continue (s\<lparr>pcResubmit := pcResubmit s @ [data res]\<rparr>)
        else Break (s\<lparr>failFast := True\<rparr>)
      else if len (data res) = 0 then Break (s\<lparr>failFast := True\<rparr>)
      else if inp s = None \<and> pcProcL s = 0 \<and> pcResubmit s = []
        then Break (s\<lparr>effects := effects s @ [Accumulated (data res)]\<rparr>)
        else Continue (s\<lparr>effects := effects s @ [Accumulated (data res)]\<rparr>))"
  by (simp add: completed_def Let_def)

lemma completed_pcProcL: "pcProcL (state_of (completed res s)) = pcProcL s"
  by (simp add: completed_cases)

lemma iteration_pcProcL:
  assumes "iteration t sc s = Some r"
  shows "pcProcL (state_of r) \<le> pcProcL s \<or>
         (pcProcL (state_of r) = pcProcL s + 1 \<and> pcProcL s < fair_share t)"
proof (cases sc)
  case CtxDone
  with assms show ?thesis by (auto simp: iteration_def)
next
  case RecvIn
  with assms show ?thesis
    by (auto simp: iteration_def Let_def dispatch_def dest: Free_positive
        split: if_splits option.splits channel.splits)
next
  case RecvResubmit
  with assms show ?thesis
    by (auto simp: iteration_def Let_def dispatch_def dest: Free_positive
        split: if_splits list.splits)
next
  case (RecvCompleted input oc)
  with assms show ?thesis
    by (auto simp: iteration_def completed_pcProcL split: if_splits option.splits)
next
  case Default
  with assms show ?thesis by (auto simp: iteration_def split: if_splits)
qed

lemma run_loop_pcProcL:
  assumes "run_loop sched s = Some r"
    and "\<forall>(t, sc) \<in> set sched. fair_share t \<le> m"
    and "pcProcL s \<le> max 1 m"
  shows "pcProcL (state_of r) \<le> max 1 m"
  using assms
proof (induction sched arbitrary: s)
  case Nil
  then show ?case by auto
next
  case (Cons e sched)
  obtain t sc where e: "e = (t, sc)" by (cases e)
  from Cons.prems(1) e obtain r1 where it: "iteration t sc s = Some r1"
    by (auto split: option.splits)
  from Cons.prems(2) e have m: "fair_share t \<le> m" by simp
  from iteration_pcProcL [OF it] m Cons.prems(3)
  have p1: "pcProcL (state_of r1) \<le> max 1 m" by auto
  show ?case
  proof (cases r1)
    case (Continue s1)
    with Cons.prems(1) e it have "run_loop sched s1 = Some r" by simp
    moreover from Cons.prems(2) have "\<forall>(t, sc) \<in> set sched. fair_share t \<le> m" by simp
    moreover from p1 Continue have "pcProcL s1 \<le> max 1 m" by simp
    ultimately show ?thesis by (rule Cons.IH)
  next
    case (Break s1)
    with Cons.prems(1) e it have "r = Break s1"
      by (simp split: if_splits)
    with p1 Break show ?thesis by simp
  qed
qed

lemma iteration_effects:
  assumes "iteration t sc s = Some r" and "\<forall>e \<in> set (effects s). loop_effect e"
  shows "\<forall>e \<in> set (effects (state_of r)). loop_effect e"
proof (cases sc)
  case CtxDone
  with assms show ?thesis by (auto simp: iteration_def)
next
  case RecvIn
  with assms show ?thesis
    by (auto simp: iteration_def Let_def dispatch_def loop_effect_def
        split: if_splits option.splits channel.splits)
next
  case RecvResubmit
  with assms show ?thesis
    by (auto simp: iteration_def Let_def dispatch_def loop_effect_def
        split: if_splits list.splits)
next
  case (RecvCompleted input oc)
  with assms show ?thesis
    by (auto simp: iteration_def completed_cases loop_effect_def split: if_splits option.splits)
next
  case Default
  with assms show ?thesis by (auto simp: iteration_def split: if_splits)
qed

lemma iteration_failFast:
  assumes "iteration t sc s = Some r" and "\<not> failFast s"
  shows "(\<not> broke r \<longrightarrow> \<not> failFast (state_of r)) \<and>
         (broke r \<longrightarrow> (failFast (state_of r) \<longleftrightarrow> fail_fast_case sc s) \<and>
                      (\<not> failFast (state_of r) \<longrightarrow> clean (state_of r)))"
proof (cases sc)
  case CtxDone
  with assms show ?thesis by (auto simp: iteration_def)
next
  case RecvIn
  with assms show ?thesis
    by (auto simp: iteration_def Let_def dispatch_def clean_def
        split: if_splits option.splits channel.splits)
next
  case RecvResubmit
  with assms show ?thesis
    by (auto simp: iteration_def Let_def dispatch_def
        split: if_splits list.splits)
next
  case (RecvCompleted input oc)
  with assms show ?thesis
    by (auto simp: iteration_def completed_cases clean_def split: if_splits option.splits)
next
  case Default
  with assms show ?thesis by (auto simp: iteration_def split: if_splits)
qed

lemma iteration_queue:
  assumes "iteration t sc s = Some r" and "length (pcResubmit s) \<le> pcResubmit_cap"
  shows "length (pcResubmit (state_of r)) \<le> pcResubmit_cap"
proof (cases sc)
  case CtxDone
  with assms show ?thesis by (auto simp: iteration_def)
next
  case RecvIn
  with assms show ?thesis
    by (auto simp: iteration_def Let_def dispatch_def
        split: if_splits option.splits channel.splits)
next
  case RecvResubmit
  with assms show ?thesis
    by (auto simp: iteration_def Let_def dispatch_def
        split: if_splits list.splits)
next
  case (RecvCompleted input oc)
  with assms show ?thesis
    by (auto simp: iteration_def completed_cases split: if_splits option.splits)
next
  case Default
  with assms show ?thesis by (auto simp: iteration_def split: if_splits)
qed

text \<open>An invariant of the iterations holds along every schedule.\<close>

lemma run_loop_invariant:
  assumes "run_loop sched s = Some r" and "P s"
    and step: "\<And>t sc s r. iteration t sc s = Some r \<Longrightarrow> P s \<Longrightarrow> P (state_of r)"
  shows "P (state_of r)"
  using assms(1,2)
proof (induction sched arbitrary: s)
  case Nil
  then show ?case by auto
next
  case (Cons e sched)
  obtain t sc where e: "e = (t, sc)" by (cases e)
  from Cons.prems(1) e obtain r1 where it: "iteration t sc s = Some r1"
    by (auto split: option.splits)
  from step [OF it Cons.prems(2)] have p1: "P (state_of r1)" .
  show ?case
  proof (cases r1)
    case (Continue s1)
    with Cons.prems(1) e it have "run_loop sched s1 = Some r" by simp
    moreover from p1 Continue have "P s1" by simp
    ultimately show ?thesis by (rule Cons.IH)
  next
    case (Break s1)
    with Cons.prems(1) e it have "r = Break s1"
      by (simp split: if_splits)
    with p1 Break show ?thesis by simp
  qed
qed

text \<open>A schedule that leaves the loop does so in its last iteration.\<close>

lemma run_loop_Break:
  assumes "run_loop sched s = Some (Break s')"
  shows "\<exists>pre t sc s1. sched = pre @ [(t, sc)] \<and> run_loop pre s = Some (Continue s1) \<and>
           iteration t sc s1 = Some (Break s')"
  using assms
proof (induction sched arbitrary: s)
  case Nil
  then show ?case by simp
next
  case (Cons e sched)
  obtain t sc where e: "e = (t, sc)" by (cases e)
  from Cons.prems e obtain r1 where it: "iteration t sc s = Some r1"
    by (auto split: option.splits)
  show ?case
  proof (cases r1)
    case (Continue s1)
    with Cons.prems e it have "run_loop sched s1 = Some (Break s')" by simp
    from Cons.IH [OF this] obtain pre t' sc' s2 where
      "sched = pre @ [(t', sc')]" "run_loop pre s1 = Some (Continue s2)"
      "iteration t' sc' s2 = Some (Break s')" by blast
    with e it Continue have "e # sched = (e # pre) @ [(t', sc')] \<and>
        run_loop (e # pre) s = Some (Continue s2) \<and> iteration t' sc' s2 = Some (Break s')"
      by simp
    then show ?thesis by blast
  next
    case (Break s1)
    with Cons.prems e it have "sched = []" "s1 = s'"
      by (simp_all split: if_splits)
    with e it Break have "e # sched = [] @ [(t, sc)] \<and> run_loop [] s = Some (Continue s) \<and>
        iteration t sc s = Some (Break s')" by simp
    then show ?thesis by blast
  qed
qed

lemma run_loop_Continue_failFast:
  assumes "run_loop sched s = Some (Continue s')" and "\<not> failFast s"
  shows "\<not> failFast s'"
proof -
  have "\<not> failFast (state_of r) \<or> broke r" if "run_loop sched s = Some r" for r
    using that assms(2)
  proof (induction sched arbitrary: s)
    case Nil
    then show ?case by auto
  next
    case (Cons e sched)
    obtain t sc where e: "e = (t, sc)" by (cases e)
    from Cons.prems(1) e obtain r1 where it: "iteration t sc s = Some r1"
      by (auto split: option.splits)
    show ?case
    proof (cases r1)
      case (Continue s1)
      with Cons.prems(1) e it have "run_loop sched s1 = Some r" by simp
      moreover from iteration_failFast [OF it Cons.prems(2)] Continue have "\<not> failFast s1" by simp
      ultimately show ?thesis by (rule Cons.IH)
    next
      case (Break s1)
      with Cons.prems(1) e it have "r = Break s1"
        by (simp split: if_splits)
      then show ?thesis by simp
    qed
  qed
  from this [OF assms(1)] show ?thesis by simp
qed

section \<open>Claims about the tracker and the free-worker estimate\<close>

text \<open>
  Claim C1. For every tracker snapshot with \<open>C\<close> coordinators and \<open>W\<close> workers and
  every in-flight count \<open>P \<ge> 0\<close>, the coordinator's free-worker estimate is the integer
  quotient \<open>W / C\<close> minus \<open>P\<close> when \<open>C > 0\<close>, and \<open>0\<close> when \<open>C = 0\<close>.
\<close>

theorem Free_estimate:
  assumes "Count t = (C, W)" and "0 \<le> P"
  shows "0 \<le> C \<and> 0 \<le> W \<and> Free (snapshot t P) = (if C = 0 then 0 else W div C - P)"
proof -
  from assms(1) have C: "C = int (fcard (coordinators t))" and W: "W = int (fcard (workers t))"
    by (simp_all add: Count_def)
  have nonneg: "0 \<le> C" "0 \<le> W"
    by (simp_all add: C W)
  have "go_quo W C = W div C" if "C \<noteq> 0"
  proof -
    from that nonneg have "0 < C" by linarith
    with nonneg show ?thesis by (intro go_quo_nonneg)
  qed
  with nonneg show ?thesis
    using assms(1) by (simp add: Free_def snapshot_def)
qed

theorem Free_estimate_witness:
  "Free (snapshot \<lparr>coordinators = {|''c1'', ''c2''|},
                   workers = {|''w1'', ''w2'', ''w3'', ''w4'', ''w5''|}\<rparr> 1) = 1 \<and>
   Free (snapshot \<lparr>coordinators = {||}, workers = {|''w1''|}\<rparr> 0) = 0"
  using Free_estimate [of "\<lparr>coordinators = {|''c1'', ''c2''|},
                   workers = {|''w1'', ''w2'', ''w3'', ''w4'', ''w5''|}\<rparr>" 2 5 1]
        Free_estimate [of "\<lparr>coordinators = {||}, workers = {|''w1''|}\<rparr>" 0 1 0]
  by (simp add: Count_def fcard_finsert_if fcard_fempty)

text \<open>
  Claim C7. For a role that is coordinator or worker and every id: \<^verbatim>\<open>TryJoin\<close> returns
  true iff the id was not in the set of the role, leaves it in the set, and a second
  \<^verbatim>\<open>TryJoin\<close> returns false and changes nothing; \<^verbatim>\<open>Leave\<close> removes the id and changes
  nothing when it is absent; after any sequence of such calls the membership of an id
  in a role's set is what the last call for that id and role made it (what it was
  before the sequence when there is no such call).
\<close>

theorem Tracker_last_call_wins:
  assumes "role = RoleCoordinator \<or> role = RoleWorker"
  shows "(\<exists>t'. TryJoin role ident t = Inr (\<not> tracked role ident t, t') \<and>
               tracked role ident t' \<and>
               TryJoin role ident t' = Inr (False, t')) \<and>
         \<not> tracked role ident (Leave role ident t) \<and>
         (\<not> tracked role ident t \<longrightarrow> Leave role ident t = t) \<and>
         ((\<forall>c \<in> set cs. call_role c = RoleCoordinator \<or> call_role c = RoleWorker) \<longrightarrow>
          (\<exists>t'. run_calls cs t = Inr t' \<and>
                (tracked role ident t' \<longleftrightarrow>
                   (case last_call role ident cs of
                      None \<Rightarrow> tracked role ident t
                    | Some joined \<Rightarrow> joined))))"
proof -
  from assms have def: "role \<noteq> RoleUndefined" by auto
  obtain t' where j: "TryJoin role ident t = Inr (\<not> tracked role ident t, t')"
    using TryJoin_defined [OF def] by blast
  then have m: "tracked role ident t'"
    by (simp add: tracked_TryJoin)
  with TryJoin_defined [OF def, of ident t'] have "TryJoin role ident t' = Inr (False, t')"
    by simp
  with j m have first: "\<exists>t'. TryJoin role ident t = Inr (\<not> tracked role ident t, t') \<and>
               tracked role ident t' \<and> TryJoin role ident t' = Inr (False, t')"
    by blast
  have last: "\<exists>t'. run_calls cs t = Inr t' \<and>
                (tracked role ident t' \<longleftrightarrow>
                   (case last_call role ident cs of
                      None \<Rightarrow> tracked role ident t
                    | Some joined \<Rightarrow> joined))"
    if all: "\<forall>c \<in> set cs. call_role c = RoleCoordinator \<or> call_role c = RoleWorker"
  proof -
    from all have "\<forall>c \<in> set cs. call_role c \<noteq> RoleUndefined" by auto
    then obtain t' where r: "run_calls cs t = Inr t'"
      using run_calls_defined by blast
    from run_calls_last [OF r def] r show ?thesis by blast
  qed
  from first last show ?thesis
    by (simp add: tracked_Leave Leave_absent)
qed

theorem Tracker_last_call_wins_witness:
  "TryJoin RoleWorker ''w1'' NewTracker = Inr (True, \<lparr>coordinators = {||}, workers = {|''w1''|}\<rparr>) \<and>
   run_calls [CallTryJoin RoleWorker ''w1'', CallTryJoin RoleCoordinator ''w1'',
              CallLeave RoleWorker ''w1'', CallTryJoin RoleWorker ''w2''] NewTracker
     = Inr \<lparr>coordinators = {|''w1''|}, workers = {|''w2''|}\<rparr> \<and>
   \<not> tracked RoleWorker ''w1'' \<lparr>coordinators = {|''w1''|}, workers = {|''w2''|}\<rparr>"
  using Tracker_last_call_wins [of RoleWorker "''w1''" NewTracker
          "[CallTryJoin RoleWorker ''w1'', CallTryJoin RoleCoordinator ''w1'',
            CallLeave RoleWorker ''w1'', CallTryJoin RoleWorker ''w2'']"]
  by (simp add: TryJoin_def NewTracker_def)

text \<open>
  Claim C10. \<^verbatim>\<open>TryJoin\<close> called with a role other than coordinator or worker (the
  undefined role, which \<^verbatim>\<open>ParseComponentRole\<close> gives for every other string) panics on
  the write into a nil map; the coordinator passes the context of an announcement reply
  through \<^verbatim>\<open>ParseComponentRole\<close> into \<^verbatim>\<open>TryJoin\<close>, so a reply whose context is neither
  \<^verbatim>\<open>coordinator\<close> nor \<^verbatim>\<open>worker\<close> ends the receiving goroutine in that panic, whereas
  \<^verbatim>\<open>Leave\<close> with such a role changes nothing.
\<close>

theorem TryJoin_undefined_role_panics:
  "(role \<noteq> RoleCoordinator \<and> role \<noteq> RoleWorker \<longrightarrow>
      role = RoleUndefined \<and> TryJoin role ident t = Inl AssignNilMap \<and> Leave role ident t = t) \<and>
   (ctx \<noteq> ''coordinator'' \<and> ctx \<noteq> ''worker'' \<longrightarrow>
      ParseComponentRole ctx = RoleUndefined \<and>
      announce_recv c \<lparr>Context = ctx, Data = d\<rparr> = Inl AssignNilMap \<and>
      Leave (ParseComponentRole ctx) ident t = t)"
  by (cases role) (simp_all add: TryJoin_def ParseComponentRole_def announce_recv_def)

theorem TryJoin_undefined_role_panics_witness:
  "TryJoin RoleUndefined ''w1'' NewTracker = Inl AssignNilMap \<and>
   Leave RoleUndefined ''w1'' NewTracker = NewTracker \<and>
   announce_recv (NewCoordinator ''c1'' Map.empty) \<lparr>Context = ''Worker'', Data = Some ''w1''\<rparr>
     = Inl AssignNilMap"
  using TryJoin_undefined_role_panics [of RoleUndefined "''w1''" NewTracker "''Worker''"
          "NewCoordinator ''c1'' Map.empty" "Some ''w1''"]
  by simp

section \<open>Claims about the loop of the coordinator\<close>

text \<open>The equations that evaluate a concrete run of the loop and of the factorial computation.\<close>

lemmas loop_eval = loop_goroutine_def loop_init_def iteration_def Free_def snapshot_def Count_def
  go_quo_def dispatch_def completed_cases fcard_finsert_if fcard_fempty after_loop_def
  failed_message_def fmt_args_def pcResubmit_cap_def len_def bytes_of_def

lemmas fac_eval = fac_registry_def fac_computation_def fac_Name_def fac_Partition_def ParseUint_def
  digit_of_def maxUint64_def fac_inputs.code FormatUint.simps digit_char_def ComputationByName_def

text \<open>
  Claim C2, as amended. Between the iterations of the loop the number \<open>P\<close> of partial
  computations in flight is at most \<open>max(1, M)\<close>, where \<open>M\<close> bounds the fair share
  \<open>W / C\<close> of every tracker snapshot the iterations so far have read; when the counts
  do not change during the loop this is \<open>P \<le> max(1, W / C)\<close>. (The estimate only holds
  back new dispatches: a share that drops below \<open>P\<close> leaves the computations in flight
  as they are.)
\<close>

theorem in_flight_bound:
  assumes "run_loop sched (loop_init ch) = Some r"
    and "\<forall>(t, sc) \<in> set sched. fair_share t \<le> m"
  shows "pcProcL (state_of r) \<le> max 1 m"
  using assms by (rule run_loop_pcProcL) (simp add: loop_init_def)

theorem in_flight_bound_witness:
  "run_loop
     [(\<lparr>coordinators = {|''c1''|}, workers = {|''w1'', ''w2''|}\<rparr>, RecvIn),
      (\<lparr>coordinators = {|''c1''|}, workers = {|''w1'', ''w2''|}\<rparr>, RecvIn),
      (\<lparr>coordinators = {|''c1''|}, workers = {|''w1''|}\<rparr>, Default)]
     (loop_init (channel_of [Some ''2'', Some ''3'', Some ''4'']))
   = Some (Continue
      \<lparr>inp = Some (channel_of [Some ''4'']), pcProcL = 2, pcResubmit = [], failFast = False,
       helpers = [Some ''2'', Some ''3''],
       effects = [Dispatched (Some ''2''), Dispatched (Some ''3'')]\<rparr>) \<and>
   fair_share \<lparr>coordinators = {|''c1''|}, workers = {|''w1'', ''w2''|}\<rparr> \<le> 2 \<and>
   fair_share \<lparr>coordinators = {|''c1''|}, workers = {|''w1''|}\<rparr> \<le> 2 \<and>
   pcProcL (state_of (Continue
      \<lparr>inp = Some (channel_of [Some ''4'']), pcProcL = 2, pcResubmit = [], failFast = False,
       helpers = [Some ''2'', Some ''3''],
       effects = [Dispatched (Some ''2''), Dispatched (Some ''3'')]\<rparr>)) \<le> max 1 2"
proof -
  have run: "run_loop
     [(\<lparr>coordinators = {|''c1''|}, workers = {|''w1'', ''w2''|}\<rparr>, RecvIn),
      (\<lparr>coordinators = {|''c1''|}, workers = {|''w1'', ''w2''|}\<rparr>, RecvIn),
      (\<lparr>coordinators = {|''c1''|}, workers = {|''w1''|}\<rparr>, Default)]
     (loop_init (channel_of [Some ''2'', Some ''3'', Some ''4'']))
   = Some (Continue
      \<lparr>inp = Some (channel_of [Some ''4'']), pcProcL = 2, pcResubmit = [], failFast = False,
       helpers = [Some ''2'', Some ''3''],
       effects = [Dispatched (Some ''2''), Dispatched (Some ''3'')]\<rparr>)"
    by (simp add: loop_eval)
  have share2: "fair_share \<lparr>coordinators = {|''c1''|}, workers = {|''w1'', ''w2''|}\<rparr> \<le> 2"
    and share1: "fair_share \<lparr>coordinators = {|''c1''|}, workers = {|''w1''|}\<rparr> \<le> 2"
    by (simp_all add: fair_share_def loop_eval)
  from share2 share1 have shares: "\<forall>(t, sc) \<in> set
     [(\<lparr>coordinators = {|''c1''|}, workers = {|''w1'', ''w2''|}\<rparr>, RecvIn),
      (\<lparr>coordinators = {|''c1''|}, workers = {|''w1'', ''w2''|}\<rparr>, RecvIn),
      (\<lparr>coordinators = {|''c1''|}, workers = {|''w1''|}\<rparr>, Default)]. fair_share t \<le> 2"
    by simp
  from run share2 share1 in_flight_bound [OF run shares] show ?thesis
    by (intro conjI)
qed

theorem in_flight_bound_counterexample:
  "run_loop
     [(\<lparr>coordinators = {|''c1''|}, workers = {|''w1'', ''w2''|}\<rparr>, RecvIn),
      (\<lparr>coordinators = {|''c1''|}, workers = {|''w1'', ''w2''|}\<rparr>, RecvIn),
      (\<lparr>coordinators = {|''c1''|}, workers = {|''w1''|}\<rparr>, Default)]
     (loop_init (channel_of [Some ''2'', Some ''3'', Some ''4'']))
   = Some (Continue
      \<lparr>inp = Some (channel_of [Some ''4'']), pcProcL = 2, pcResubmit = [], failFast = False,
       helpers = [Some ''2'', Some ''3''],
       effects = [Dispatched (Some ''2''), Dispatched (Some ''3'')]\<rparr>) \<and>
   Count \<lparr>coordinators = {|''c1''|}, workers = {|''w1''|}\<rparr> = (1, 1) \<and>
   \<not> pcProcL
      \<lparr>inp = Some (channel_of [Some ''4'']), pcProcL = 2, pcResubmit = [], failFast = False,
       helpers = [Some ''2'', Some ''3''],
       effects = [Dispatched (Some ''2''), Dispatched (Some ''3'')]\<rparr>
     \<le> max 1 (fair_share \<lparr>coordinators = {|''c1''|}, workers = {|''w1''|}\<rparr>)"
  by (simp add: fair_share_def loop_eval)

text \<open>
  Claim C3. When a dispatched partial computation completes with a resubmit error
  (deadline exceeded or a transport failure), the completion carries the original
  input and the loop appends it to the resubmit queue, whose capacity is exactly 100:
  with 100 inputs queued it does not enqueue, sets fail-fast and leaves the loop; the
  queue never holds more than 100 inputs.
\<close>

theorem resubmit_queue_capacity:
  assumes "oc = PublishFailed err \<or> oc = RecvFailed err"
    and "err = DeadlineExceeded \<or> err = Unavailable \<or> err = Unknown"
    and "input \<in> set (helpers s)"
  shows "performPartialComputation input oc = Some \<lparr>data = input, workerId = [], resubmit = Some err\<rparr> \<and>
         (length (pcResubmit s) < 100 \<longrightarrow>
            iteration t (RecvCompleted input oc) s =
              Some (Continue (s\<lparr>pcProcL := pcProcL s - 1, helpers := remove1 input (helpers s),
                                pcResubmit := pcResubmit s @ [input]\<rparr>))) \<and>
         (length (pcResubmit s) = 100 \<longrightarrow>
            iteration t (RecvCompleted input oc) s =
              Some (Break (s\<lparr>pcProcL := pcProcL s - 1, helpers := remove1 input (helpers s),
                             failFast := True\<rparr>))) \<and>
         (\<forall>sched ch r. run_loop sched (loop_init ch) = Some r \<longrightarrow>
            length (pcResubmit (state_of r)) \<le> 100)"
proof -
  from assms(1,2) have p: "performPartialComputation input oc =
      Some \<lparr>data = input, workerId = [], resubmit = Some err\<rparr>"
    by auto
  have q: "length (pcResubmit (state_of r)) \<le> 100"
    if "run_loop sched (loop_init ch) = Some r" for sched ch r
  proof -
    have "length (pcResubmit (state_of r)) \<le> pcResubmit_cap"
      using that
    proof (rule run_loop_invariant)
      show "length (pcResubmit (loop_init ch)) \<le> pcResubmit_cap"
        by (simp add: loop_init_def)
    qed (rule iteration_queue)
    then show ?thesis by (simp add: pcResubmit_cap_def)
  qed
  from p assms(3) q show ?thesis
    by (simp add: iteration_def completed_cases pcResubmit_cap_def)
qed

theorem resubmit_queue_capacity_witness:
  "Some ''3'' \<in> set (helpers \<lparr>inp = None, pcProcL = 1, pcResubmit = [Some ''2''], failFast = False,
       helpers = [Some ''3''], effects = []\<rparr>) \<and>
   iteration NewTracker (RecvCompleted (Some ''3'') (RecvFailed DeadlineExceeded))
     \<lparr>inp = None, pcProcL = 1, pcResubmit = [Some ''2''], failFast = False,
       helpers = [Some ''3''], effects = []\<rparr>
   = Some (Continue \<lparr>inp = None, pcProcL = 0, pcResubmit = [Some ''2'', Some ''3''],
       failFast = False, helpers = [], effects = []\<rparr>) \<and>
   Some ''3'' \<in> set (helpers \<lparr>inp = None, pcProcL = 1, pcResubmit = replicate 100 (Some ''2''),
       failFast = False, helpers = [Some ''3''], effects = []\<rparr>) \<and>
   iteration NewTracker (RecvCompleted (Some ''3'') (PublishFailed Unavailable))
     \<lparr>inp = None, pcProcL = 1, pcResubmit = replicate 100 (Some ''2''), failFast = False,
       helpers = [Some ''3''], effects = []\<rparr>
   = Some (Break \<lparr>inp = None, pcProcL = 0, pcResubmit = replicate 100 (Some ''2''),
       failFast = True, helpers = [], effects = []\<rparr>)"
proof -
  have h1: "Some ''3'' \<in> set (helpers \<lparr>inp = None, pcProcL = 1, pcResubmit = [Some ''2''],
       failFast = False, helpers = [Some ''3''], effects = []\<rparr>)"
    by simp
  have h2: "Some ''3'' \<in> set (helpers \<lparr>inp = None, pcProcL = 1,
       pcResubmit = replicate 100 (Some ''2''), failFast = False, helpers = [Some ''3''],
       effects = []\<rparr>)"
    by simp
  show ?thesis
    using h1 h2
      resubmit_queue_capacity [OF disjI2 [OF refl] disjI1 [OF refl] h1, of NewTracker]
      resubmit_queue_capacity [OF disjI1 [OF refl] disjI2 [OF disjI1 [OF refl]] h2, of NewTracker]
    by simp
qed

lemma loop_goroutine_ended:
  assumes "loop_goroutine req ch sched = Some (effs, ended)"
  shows "count_list effs Finalized \<le> 1 \<and>
         (\<exists>r. run_loop sched (loop_init ch) = Some r \<and> broke r = ended \<and>
            (Finalized \<in> set effs \<longleftrightarrow> ended \<and> \<not> failFast (state_of r)) \<and>
            (ended \<and> \<not> failFast (state_of r) \<longrightarrow> clean (state_of r)) \<and>
            (ended \<longrightarrow>
               (\<exists>pre t sc s. sched = pre @ [(t, sc)] \<and>
                  run_loop pre (loop_init ch) = Some (Continue s) \<and>
                  (failFast (state_of r) \<longleftrightarrow> fail_fast_case sc s))) \<and>
            (ended \<and> failFast (state_of r) \<longrightarrow>
               effs = effects (state_of r) @ [Written (failed_message req)] \<and>
               Finalized \<notin> set effs \<and>
               (\<forall>e \<in> set (effects (state_of r)). loop_effect e)))"
proof -
  from assms obtain r where r: "run_loop sched (loop_init ch) = Some r"
    by (auto simp: loop_goroutine_def split: option.splits)
  have le: "\<forall>e \<in> set (effects (state_of r)). loop_effect e"
    using r
  proof (rule run_loop_invariant)
    show "\<forall>e \<in> set (effects (loop_init ch)). loop_effect e"
      by (simp add: loop_init_def)
  qed (rule iteration_effects)
  then have nofin: "Finalized \<notin> set (effects (state_of r))"
    and nowr: "\<And>m. Written m \<notin> set (effects (state_of r))"
    by (auto simp: loop_effect_def)
  then have cnt: "count_list (effects (state_of r)) Finalized = 0"
    by (simp add: count_list_0_iff)
  show ?thesis
  proof (cases r)
    case (Continue s)
    with assms r have "effs = effects s" "\<not> ended"
      by (simp_all add: loop_goroutine_def)
    with r Continue nofin cnt show ?thesis by auto
  next
    case (Break s)
    with assms r have e: "effs = after_loop req s" "ended"
      by (simp_all add: loop_goroutine_def)
    from run_loop_Break [OF r [unfolded Break]] obtain pre t sc s1 where
      d: "sched = pre @ [(t, sc)]" "run_loop pre (loop_init ch) = Some (Continue s1)"
         "iteration t sc s1 = Some (Break s)" by blast
    have "\<not> failFast s1"
      using d(2) by (rule run_loop_Continue_failFast) (simp add: loop_init_def)
    from iteration_failFast [OF d(3) this]
    have ff: "failFast s \<longleftrightarrow> fail_fast_case sc s1" and cl: "\<not> failFast s \<longrightarrow> clean s"
      by simp_all
    from d ff have last: "\<exists>pre t sc s'. sched = pre @ [(t, sc)] \<and>
                  run_loop pre (loop_init ch) = Some (Continue s') \<and>
                  (failFast s \<longleftrightarrow> fail_fast_case sc s')" by blast
    from e nofin cnt Break have c1: "count_list effs Finalized \<le> 1"
      and fin: "Finalized \<in> set effs \<longleftrightarrow> \<not> failFast s"
      and wr: "failFast s \<longrightarrow> effs = effects s @ [Written (failed_message req)]"
      by (simp_all add: after_loop_def)
    from r Break e(2) c1 fin wr cl last le show ?thesis
      by auto
  qed
qed

lemma run_loop_snoc:
  assumes "run_loop pre s0 = Some (Continue s)"
  shows "run_loop (pre @ [(t, sc)]) s0 = iteration t sc s"
  using assms
proof (induction pre arbitrary: s0)
  case Nil
  then show ?case by (simp split: option.splits control.splits)
next
  case (Cons e pre)
  obtain t' sc' where e: "e = (t', sc')" by (cases e)
  from Cons.prems e obtain r1 where it: "iteration t' sc' s0 = Some r1"
    by (auto split: option.splits)
  show ?case
  proof (cases r1)
    case (Continue s1)
    with Cons.prems e it have "run_loop pre s1 = Some (Continue s)" by simp
    from Cons.IH [OF this] e it Continue show ?thesis by simp
  next
    case (Break s1)
    with Cons.prems e it show ?thesis by (simp split: if_splits)
  qed
qed

lemma loop_goroutine_snoc:
  assumes "run_loop pre (loop_init ch) = Some (Continue s)"
  shows "loop_goroutine req ch (pre @ [(t, sc)]) =
           (case iteration t sc s of
              None \<Rightarrow> None
            | Some (Continue s') \<Rightarrow> Some (effects s', False)
            | Some (Break s') \<Rightarrow> Some (after_loop req s', True))"
  by (simp add: loop_goroutine_def run_loop_snoc [OF assms])

lemma fail_fast_iteration:
  assumes "fail_fast_case sc s" and "iteration t sc s \<noteq> None"
  shows "\<exists>s'. iteration t sc s = Some (Break s') \<and> failFast s' \<and> effects s' = effects s"
proof (cases sc)
  case CtxDone
  then show ?thesis by (simp add: iteration_def)
next
  case (RecvCompleted input oc)
  with assms show ?thesis
    by (auto simp: iteration_def completed_cases split: option.splits if_splits)
qed (use assms in simp_all)

lemma loop_goroutine_progress:
  assumes pre: "run_loop pre (loop_init ch) = Some (Continue s)"
  shows "(fail_fast_case sc s \<and> iteration t sc s \<noteq> None \<longrightarrow>
            loop_goroutine req ch (pre @ [(t, sc)])
              = Some (effects s @ [Written (failed_message req)], True)) \<and>
         loop_goroutine req ch (pre @ [(t, CtxDone)])
           = Some (effects s @ [Written (failed_message req)], True) \<and>
         (input \<in> set (helpers s) \<and> len (Data ar) = 0 \<longrightarrow>
            loop_goroutine req ch (pre @ [(t, RecvCompleted input (RecvOk ar))])
              = Some (effects s @ [Written (failed_message req)], True)) \<and>
         (input \<in> set (helpers s) \<and> len (Data ar) \<noteq> 0 \<longrightarrow>
            loop_goroutine req ch (pre @ [(t, RecvCompleted input (RecvOk ar))])
              = (if inp s = None \<and> pcProcL s = 1 \<and> pcResubmit s = []
                 then Some (effects s @ [Accumulated (Data ar), Finalized], True)
                 else Some (effects s @ [Accumulated (Data ar)], False))) \<and>
         (inp s = Some Closed \<and> 0 < Free (snapshot t (pcProcL s)) \<longrightarrow>
            loop_goroutine req ch (pre @ [(t, RecvIn)])
              = (if pcProcL s = 0 \<and> pcResubmit s = []
                 then Some (effects s @ [Finalized], True)
                 else Some (effects s, False)))"
proof -
  have nf: "\<not> failFast s"
    using pre by (rule run_loop_Continue_failFast) (simp add: loop_init_def)
  have ff: "loop_goroutine req ch (pre @ [(t, sc)])
              = Some (effects s @ [Written (failed_message req)], True)"
    if "fail_fast_case sc s" "iteration t sc s \<noteq> None" for sc
  proof -
    from fail_fast_iteration [OF that] obtain s' where
      "iteration t sc s = Some (Break s')" "failFast s'" "effects s' = effects s" by blast
    then show ?thesis
      by (simp add: loop_goroutine_snoc [OF pre] after_loop_def)
  qed
  have ctx: "loop_goroutine req ch (pre @ [(t, CtxDone)])
           = Some (effects s @ [Written (failed_message req)], True)"
    by (rule ff) (simp_all add: iteration_def)
  have empty: "loop_goroutine req ch (pre @ [(t, RecvCompleted input (RecvOk ar))])
              = Some (effects s @ [Written (failed_message req)], True)"
    if "input \<in> set (helpers s)" "len (Data ar) = 0"
    using that by (intro ff) (simp_all add: iteration_def)
  have ok: "loop_goroutine req ch (pre @ [(t, RecvCompleted input (RecvOk ar))])
              = (if inp s = None \<and> pcProcL s = 1 \<and> pcResubmit s = []
                 then Some (effects s @ [Accumulated (Data ar), Finalized], True)
                 else Some (effects s @ [Accumulated (Data ar)], False))"
    if "input \<in> set (helpers s)" "len (Data ar) \<noteq> 0"
    using that nf
    by (simp add: loop_goroutine_snoc [OF pre] iteration_def completed_cases after_loop_def)
  have closed: "loop_goroutine req ch (pre @ [(t, RecvIn)])
              = (if pcProcL s = 0 \<and> pcResubmit s = []
                 then Some (effects s @ [Finalized], True)
                 else Some (effects s, False))"
    if "inp s = Some Closed" "0 < Free (snapshot t (pcProcL s))"
    using that nf
    by (simp add: loop_goroutine_snoc [OF pre] iteration_def after_loop_def Let_def)
  from ff ctx empty ok closed show ?thesis by blast
qed

text \<open>
  Claim C4. For every compute request the loop goroutine calls \<^verbatim>\<open>Finalize\<close> at most
  once, and it calls it iff the loop is left cleanly (input channel drained, resubmit
  queue empty, nothing in flight) with no fail-fast condition (context cancelled, a
  completion with empty result data, a resubmission with the queue full); on fail-fast
  it writes the one failure line to the output of the request instead and does not
  call \<^verbatim>\<open>Finalize\<close>. The first part is about every schedule the goroutine has
  followed; the second part says what the next iteration does after any schedule that
  has not left the loop: every fail-fast condition leaves it with the failure line,
  the last completion and the close of the drained input leave it with \<^verbatim>\<open>Finalize\<close>
  exactly in the clean state.
\<close>

theorem Finalize_iff_clean_exit:
  "(loop_goroutine req ch sched = Some (effs, ended) \<longrightarrow>
      count_list effs Finalized \<le> 1 \<and>
      (\<exists>r. run_loop sched (loop_init ch) = Some r \<and> broke r = ended \<and>
         (Finalized \<in> set effs \<longleftrightarrow> ended \<and> \<not> failFast (state_of r)) \<and>
         (ended \<and> \<not> failFast (state_of r) \<longrightarrow> clean (state_of r)) \<and>
         (ended \<longrightarrow>
            (\<exists>pre t sc s. sched = pre @ [(t, sc)] \<and>
               run_loop pre (loop_init ch) = Some (Continue s) \<and>
               (failFast (state_of r) \<longleftrightarrow> fail_fast_case sc s))) \<and>
         (ended \<and> failFast (state_of r) \<longrightarrow>
            effs = effects (state_of r) @ [Written (failed_message req)] \<and>
            Finalized \<notin> set effs \<and>
            (\<forall>e \<in> set (effects (state_of r)). loop_effect e)))) \<and>
   (run_loop pre (loop_init ch) = Some (Continue s) \<longrightarrow>
      (fail_fast_case sc s \<and> iteration t sc s \<noteq> None \<longrightarrow>
         loop_goroutine req ch (pre @ [(t, sc)])
           = Some (effects s @ [Written (failed_message req)], True)) \<and>
      loop_goroutine req ch (pre @ [(t, CtxDone)])
        = Some (effects s @ [Written (failed_message req)], True) \<and>
      (input \<in> set (helpers s) \<and> len (Data ar) = 0 \<longrightarrow>
         loop_goroutine req ch (pre @ [(t, RecvCompleted input (RecvOk ar))])
           = Some (effects s @ [Written (failed_message req)], True)) \<and>
      (input \<in> set (helpers s) \<and> len (Data ar) \<noteq> 0 \<longrightarrow>
         loop_goroutine req ch (pre @ [(t, RecvCompleted input (RecvOk ar))])
           = (if inp s = None \<and> pcProcL s = 1 \<and> pcResubmit s = []
              then Some (effects s @ [Accumulated (Data ar), Finalized], True)
              else Some (effects s @ [Accumulated (Data ar)], False))) \<and>
      (inp s = Some Closed \<and> 0 < Free (snapshot t (pcProcL s)) \<longrightarrow>
         loop_goroutine req ch (pre @ [(t, RecvIn)])
           = (if pcProcL s = 0 \<and> pcResubmit s = []
              then Some (effects s @ [Finalized], True)
              else Some (effects s, False))))"
  using loop_goroutine_ended [of req ch sched effs ended]
    loop_goroutine_progress [of pre ch s sc t req input ar]
  by blast

theorem Finalize_iff_clean_exit_witness:
  "loop_goroutine \<lparr>Name_req = ''fac'', Args = [''3'']\<rparr> (fac_inputs 2 3)
     [(\<lparr>coordinators = {|''c1''|}, workers = {|''w1'', ''w2'', ''w3''|}\<rparr>, RecvIn),
      (\<lparr>coordinators = {|''c1''|}, workers = {|''w1'', ''w2'', ''w3''|}\<rparr>, RecvIn),
      (\<lparr>coordinators = {|''c1''|}, workers = {|''w1'', ''w2'', ''w3''|}\<rparr>, RecvIn),
      (\<lparr>coordinators = {|''c1''|}, workers = {|''w1'', ''w2'', ''w3''|}\<rparr>,
         RecvCompleted (Some ''3'') (RecvOk \<lparr>Context = ''w2'', Data = Some ''3''\<rparr>)),
      (\<lparr>coordinators = {|''c1''|}, workers = {|''w1'', ''w2'', ''w3''|}\<rparr>,
         RecvCompleted (Some ''2'') (RecvOk \<lparr>Context = ''w1'', Data = Some ''2''\<rparr>))]
   = Some ([Dispatched (Some ''2''), Dispatched (Some ''3''), Accumulated (Some ''3''),
            Accumulated (Some ''2''), Finalized], True) \<and>
   count_list [Dispatched (Some ''2''), Dispatched (Some ''3''), Accumulated (Some ''3''),
               Accumulated (Some ''2''), Finalized] Finalized \<le> 1 \<and>
   run_loop
     [(\<lparr>coordinators = {|''c1''|}, workers = {|''w1'', ''w2'', ''w3''|}\<rparr>, RecvIn)]
     (loop_init (fac_inputs 2 3))
   = Some (Continue \<lparr>inp = Some (fac_inputs 3 3), pcProcL = 1, pcResubmit = [],
        failFast = False, helpers = [Some ''2''], effects = [Dispatched (Some ''2'')]\<rparr>) \<and>
   loop_goroutine \<lparr>Name_req = ''fac'', Args = [''3'']\<rparr> (fac_inputs 2 3)
     [(\<lparr>coordinators = {|''c1''|}, workers = {|''w1'', ''w2'', ''w3''|}\<rparr>, RecvIn),
      (\<lparr>coordinators = {|''c1''|}, workers = {|''w1'', ''w2'', ''w3''|}\<rparr>, CtxDone)]
   = Some ([Dispatched (Some ''2''), Written (''Computation fac[3] failed'' @ [CHR 0x0A])], True) \<and>
   loop_goroutine \<lparr>Name_req = ''fac'', Args = [''3'']\<rparr> (fac_inputs 2 3)
     [(\<lparr>coordinators = {|''c1''|}, workers = {|''w1'', ''w2'', ''w3''|}\<rparr>, RecvIn),
      (\<lparr>coordinators = {|''c1''|}, workers = {|''w1'', ''w2'', ''w3''|}\<rparr>,
         RecvCompleted (Some ''2'') (RecvOk \<lparr>Context = ''w1'', Data = Some []\<rparr>))]
   = Some ([Dispatched (Some ''2''), Written (''Computation fac[3] failed'' @ [CHR 0x0A])], True)"
proof -
  have clean_run: "loop_goroutine \<lparr>Name_req = ''fac'', Args = [''3'']\<rparr> (fac_inputs 2 3)
     [(\<lparr>coordinators = {|''c1''|}, workers = {|''w1'', ''w2'', ''w3''|}\<rparr>, RecvIn),
      (\<lparr>coordinators = {|''c1''|}, workers = {|''w1'', ''w2'', ''w3''|}\<rparr>, RecvIn),
      (\<lparr>coordinators = {|''c1''|}, workers = {|''w1'', ''w2'', ''w3''|}\<rparr>, RecvIn),
      (\<lparr>coordinators = {|''c1''|}, workers = {|''w1'', ''w2'', ''w3''|}\<rparr>,
         RecvCompleted (Some ''3'') (RecvOk \<lparr>Context = ''w2'', Data = Some ''3''\<rparr>)),
      (\<lparr>coordinators = {|''c1''|}, workers = {|''w1'', ''w2'', ''w3''|}\<rparr>,
         RecvCompleted (Some ''2'') (RecvOk \<lparr>Context = ''w1'', Data = Some ''2''\<rparr>))]
   = Some ([Dispatched (Some ''2''), Dispatched (Some ''3''), Accumulated (Some ''3''),
            Accumulated (Some ''2''), Finalized], True)"
    by (simp add: loop_eval fac_eval)
  have started: "run_loop
     [(\<lparr>coordinators = {|''c1''|}, workers = {|''w1'', ''w2'', ''w3''|}\<rparr>, RecvIn)]
     (loop_init (fac_inputs 2 3))
   = Some (Continue \<lparr>inp = Some (fac_inputs 3 3), pcProcL = 1, pcResubmit = [],
        failFast = False, helpers = [Some ''2''], effects = [Dispatched (Some ''2'')]\<rparr>)"
    by (simp add: loop_eval fac_inputs.code [of 2] FormatUint.simps digit_char_def)
  have helper: "Some ''2'' \<in> set (helpers \<lparr>inp = Some (fac_inputs 3 3), pcProcL = 1,
        pcResubmit = [], failFast = False, helpers = [Some ''2''],
        effects = [Dispatched (Some ''2'')]\<rparr>)"
    and empty: "len (Data \<lparr>Context = ''w1'', Data = Some []\<rparr>) = 0"
    by (simp_all add: len_def bytes_of_def)
  note ended = Finalize_iff_clean_exit [THEN conjunct1, rule_format, OF clean_run]
  note next_step = Finalize_iff_clean_exit [THEN conjunct2, rule_format, OF started,
      of _ "\<lparr>coordinators = {|''c1''|}, workers = {|''w1'', ''w2'', ''w3''|}\<rparr>"
         "\<lparr>Name_req = ''fac'', Args = [''3'']\<rparr>" "Some ''2''"
         "\<lparr>Context = ''w1'', Data = Some []\<rparr>"]
  from next_step have cancelled: "loop_goroutine \<lparr>Name_req = ''fac'', Args = [''3'']\<rparr> (fac_inputs 2 3)
     [(\<lparr>coordinators = {|''c1''|}, workers = {|''w1'', ''w2'', ''w3''|}\<rparr>, RecvIn),
      (\<lparr>coordinators = {|''c1''|}, workers = {|''w1'', ''w2'', ''w3''|}\<rparr>, CtxDone)]
   = Some ([Dispatched (Some ''2''), Written (''Computation fac[3] failed'' @ [CHR 0x0A])], True)"
    by (simp add: failed_message_def fmt_args_def)
  from next_step helper empty have failed: "loop_goroutine \<lparr>Name_req = ''fac'', Args = [''3'']\<rparr> (fac_inputs 2 3)
     [(\<lparr>coordinators = {|''c1''|}, workers = {|''w1'', ''w2'', ''w3''|}\<rparr>, RecvIn),
      (\<lparr>coordinators = {|''c1''|}, workers = {|''w1'', ''w2'', ''w3''|}\<rparr>,
         RecvCompleted (Some ''2'') (RecvOk \<lparr>Context = ''w1'', Data = Some []\<rparr>))]
   = Some ([Dispatched (Some ''2''), Written (''Computation fac[3] failed'' @ [CHR 0x0A])], True)"
    by (simp add: failed_message_def fmt_args_def)
  from clean_run ended [THEN conjunct1] started cancelled failed show ?thesis
    by (intro conjI)
qed

section \<open>Claims about the handling of messages\<close>

text \<open>
  Claim C5. For every partial-compute action a worker receives, it looks up the
  computation named by the id of the action: if none is registered it publishes
  nothing; otherwise it calls \<^verbatim>\<open>PartialCompute\<close> on the params and publishes exactly
  one action result, with its own id as context and the output as data, when the
  output is not nil (a result of length zero for an empty output), and nothing when
  the output is nil.
\<close>

theorem handlePartialComputation_replies:
  "(ComputationByName (w_reg w) (Id_action ac) = None \<longrightarrow> handlePartialComputation w ac = []) \<and>
   (\<forall>cm. ComputationByName (w_reg w) (Id_action ac) = Some cm \<longrightarrow>
      (PartialCompute cm (Params ac) = None \<longrightarrow> handlePartialComputation w ac = []) \<and>
      (\<forall>out. PartialCompute cm (Params ac) = Some out \<longrightarrow>
         handlePartialComputation w ac = [\<lparr>Context = w_id w, Data = Some out\<rparr>]) \<and>
      (PartialCompute cm (Params ac) = Some [] \<longrightarrow>
         handlePartialComputation w ac = [\<lparr>Context = w_id w, Data = Some []\<rparr>] \<and>
         len (Data (hd (handlePartialComputation w ac))) = 0))"
  by (simp add: handlePartialComputation_def len_def bytes_of_def)

theorem handlePartialComputation_replies_witness:
  "handlePartialComputation \<lparr>w_id = ''w1'', w_reg = fac_registry\<rparr>
     \<lparr>Type = ActionTypeCompute, Id_action = ''fac'', Source = ''c1'', Params = Some ''4''\<rparr>
     = [\<lparr>Context = ''w1'', Data = Some ''4''\<rparr>] \<and>
   handlePartialComputation \<lparr>w_id = ''w1'', w_reg = fac_registry\<rparr>
     \<lparr>Type = ActionTypeCompute, Id_action = ''fac'', Source = ''c1'', Params = Some []\<rparr>
     = [\<lparr>Context = ''w1'', Data = Some []\<rparr>] \<and>
   handlePartialComputation \<lparr>w_id = ''w1'', w_reg = fac_registry\<rparr>
     \<lparr>Type = ActionTypeCompute, Id_action = ''fac'', Source = ''c1'', Params = None\<rparr> = [] \<and>
   handlePartialComputation \<lparr>w_id = ''w1'', w_reg = fac_registry\<rparr>
     \<lparr>Type = ActionTypeCompute, Id_action = ''fib'', Source = ''c1'', Params = Some ''4''\<rparr> = []"
  using handlePartialComputation_replies [of "\<lparr>w_id = ''w1'', w_reg = fac_registry\<rparr>"
      "\<lparr>Type = ActionTypeCompute, Id_action = ''fac'', Source = ''c1'', Params = Some ''4''\<rparr>"]
    handlePartialComputation_replies [of "\<lparr>w_id = ''w1'', w_reg = fac_registry\<rparr>"
      "\<lparr>Type = ActionTypeCompute, Id_action = ''fac'', Source = ''c1'', Params = Some []\<rparr>"]
    handlePartialComputation_replies [of "\<lparr>w_id = ''w1'', w_reg = fac_registry\<rparr>"
      "\<lparr>Type = ActionTypeCompute, Id_action = ''fac'', Source = ''c1'', Params = None\<rparr>"]
    handlePartialComputation_replies [of "\<lparr>w_id = ''w1'', w_reg = fac_registry\<rparr>"
      "\<lparr>Type = ActionTypeCompute, Id_action = ''fib'', Source = ''c1'', Params = Some ''4''\<rparr>"]
  by (simp add: ComputationByName_def fac_registry_def fac_Name_def fac_computation_def
      fac_PartialCompute_def)

text \<open>
  Claim C6, as amended. On an \<^verbatim>\<open>announceCoordinator\<close> action with params \<^verbatim>\<open>HELLO\<close>, a
  coordinator whose id differs from the id of the action calls \<^verbatim>\<open>TryJoin\<close> with the role
  its source names (coordinator or worker) and the id, and replies exactly once with
  context \<^verbatim>\<open>coordinator\<close> and its own id as data; the echo of its own announcement makes
  it do nothing; with params \<^verbatim>\<open>BYE\<close> it calls \<^verbatim>\<open>Leave\<close> with that role and id and does
  not reply. A worker keeps no tracker: on \<^verbatim>\<open>HELLO\<close> it only replies exactly once, with
  context \<^verbatim>\<open>worker\<close> and its own id as data, and on \<^verbatim>\<open>BYE\<close> it does nothing.
\<close>

theorem announcement_handling:
  "(bytes_Equal (Params ac) DataAnnounceJoin \<and> Id_action ac \<noteq> c_id c \<and>
      (ParseComponentRole (Source ac) = RoleCoordinator \<or> ParseComponentRole (Source ac) = RoleWorker) \<longrightarrow>
      (\<exists>b t'. TryJoin (ParseComponentRole (Source ac)) (Id_action ac) (c_tracker c) = Inr (b, t') \<and>
         Coordinator_trackCoordinators c ac =
           (\<lparr>calls = [CallTryJoin (ParseComponentRole (Source ac)) (Id_action ac)],
             replies = [\<lparr>Context = ''coordinator'', Data = Some (c_id c)\<rparr>]\<rparr>,
            Inr (c\<lparr>c_tracker := t'\<rparr>)))) \<and>
   (bytes_Equal (Params ac) DataAnnounceJoin \<and> Id_action ac = c_id c \<longrightarrow>
      Coordinator_trackCoordinators c ac = (\<lparr>calls = [], replies = []\<rparr>, Inr c)) \<and>
   (Params ac = DataAnnounceLeave \<longrightarrow>
      Coordinator_trackCoordinators c ac =
        (\<lparr>calls = [CallLeave (ParseComponentRole (Source ac)) (Id_action ac)], replies = []\<rparr>,
         Inr (c\<lparr>c_tracker := Leave (ParseComponentRole (Source ac)) (Id_action ac) (c_tracker c)\<rparr>))) \<and>
   (bytes_Equal (Params ac) DataAnnounceJoin \<longrightarrow>
      Worker_trackCoordinators w ac =
        \<lparr>calls = [], replies = [\<lparr>Context = ''worker'', Data = Some (w_id w)\<rparr>]\<rparr>) \<and>
   (Params ac = DataAnnounceLeave \<longrightarrow>
      Worker_trackCoordinators w ac = \<lparr>calls = [], replies = []\<rparr>)"
proof -
  have leave: "\<not> bytes_Equal DataAnnounceLeave DataAnnounceJoin"
    by (simp add: bytes_Equal_def bytes_of_def DataAnnounceLeave_def DataAnnounceJoin_def)
  show ?thesis
    using leave
    by (auto simp: Coordinator_trackCoordinators_def Worker_trackCoordinators_def Let_def
        TryJoin_def split: sum.splits if_splits)
qed


theorem announcement_handling_witness:
  "Coordinator_trackCoordinators (NewCoordinator ''c1'' fac_registry)
     \<lparr>Type = ActionEventTypeAnnounceCoordinator, Id_action = ''c2'', Source = ''coordinator'',
      Params = Some ''HELLO''\<rparr>
   = (\<lparr>calls = [CallTryJoin RoleCoordinator ''c2''],
       replies = [\<lparr>Context = ''coordinator'', Data = Some ''c1''\<rparr>]\<rparr>,
      Inr \<lparr>c_id = ''c1'', c_reg = fac_registry,
           c_tracker = \<lparr>coordinators = {|''c2''|}, workers = {||}\<rparr>\<rparr>) \<and>
   Worker_trackCoordinators \<lparr>w_id = ''w1'', w_reg = fac_registry\<rparr>
     \<lparr>Type = ActionEventTypeAnnounceCoordinator, Id_action = ''c2'', Source = ''coordinator'',
      Params = Some ''HELLO''\<rparr>
   = \<lparr>calls = [], replies = [\<lparr>Context = ''worker'', Data = Some ''w1''\<rparr>]\<rparr> \<and>
   Coordinator_trackCoordinators (NewCoordinator ''c1'' fac_registry)
     \<lparr>Type = ActionEventTypeAnnounceCoordinator, Id_action = ''c2'', Source = ''coordinator'',
      Params = Some ''BYE''\<rparr>
   = (\<lparr>calls = [CallLeave RoleCoordinator ''c2''], replies = []\<rparr>,
      Inr (NewCoordinator ''c1'' fac_registry))"
  using announcement_handling [of
      "\<lparr>Type = ActionEventTypeAnnounceCoordinator, Id_action = ''c2'', Source = ''coordinator'',
        Params = Some ''HELLO''\<rparr>" "NewCoordinator ''c1'' fac_registry"
      "\<lparr>w_id = ''w1'', w_reg = fac_registry\<rparr>"]
    announcement_handling [of
      "\<lparr>Type = ActionEventTypeAnnounceCoordinator, Id_action = ''c2'', Source = ''coordinator'',
        Params = Some ''BYE''\<rparr>" "NewCoordinator ''c1'' fac_registry"
      "\<lparr>w_id = ''w1'', w_reg = fac_registry\<rparr>"]
  by (simp add: bytes_Equal_def bytes_of_def DataAnnounceJoin_def DataAnnounceLeave_def
      ParseComponentRole_def NewCoordinator_def NewTracker_def TryJoin_def)

theorem announcement_handling_counterexample:
  "w_id \<lparr>w_id = ''w1'', w_reg = fac_registry\<rparr> \<noteq> ''c2'' \<and>
   calls (Worker_trackCoordinators \<lparr>w_id = ''w1'', w_reg = fac_registry\<rparr>
     \<lparr>Type = ActionEventTypeAnnounceCoordinator, Id_action = ''c2'', Source = ''coordinator'',
      Params = DataAnnounceJoin\<rparr>)
     \<noteq> [CallTryJoin (ParseComponentRole ''coordinator'') ''c2''] \<and>
   calls (Worker_trackCoordinators \<lparr>w_id = ''w1'', w_reg = fac_registry\<rparr>
     \<lparr>Type = ActionEventTypeAnnounceCoordinator, Id_action = ''c2'', Source = ''coordinator'',
      Params = DataAnnounceLeave\<rparr>)
     \<noteq> [CallLeave (ParseComponentRole ''coordinator'') ''c2'']"
  by (simp add: Worker_trackCoordinators_def)

section \<open>Claims about the coordinator process\<close>

lemma Start_self_join:
  "TryJoin RoleCoordinator new_id NewTracker
     = Inr (True, \<lparr>coordinators = {|new_id|}, workers = {||}\<rparr>)"
  by (simp add: TryJoin_def NewTracker_def)

text \<open>
  A panic of a goroutine ends the process with status 2: the failed join announcement,
  and a tracking goroutine on a message with an undefined role, also after the loop
  goroutine has called \<^verbatim>\<open>Finalize\<close>.
\<close>

lemma goroutine_panic_exit:
  assumes "flag_Parse argv = Inr cl" and "\<not> flag_h cl" and "flag_Arg0 cl \<noteq> []"
    and "grpc_ok env" and "sub_coordinators_ok env" and "sub_workers_ok env"
  shows "(\<not> announce_join_ok env \<longrightarrow>
            snd (coordinator_main new_id registry argv env) = Some 2) \<and>
         (announce_join_ok env \<and>
          run_tracking (received env)
            \<lparr>c_id = new_id, c_reg = registry,
             c_tracker = \<lparr>coordinators = {|new_id|}, workers = {||}\<rparr>\<rparr> = Inl p \<and>
          ComputationByName registry (flag_Arg0 cl) = Some cm \<and>
          Partition cm \<lparr>Name_req = flag_Arg0 cl, Args = tl (flag_Args cl)\<rparr> = Inr ch \<and>
          loop_goroutine \<lparr>Name_req = flag_Arg0 cl, Args = tl (flag_Args cl)\<rparr> ch (schedule env)
            = Some (effs, ended) \<longrightarrow>
            coordinator_main new_id registry argv env
              = (Printed (''Starting a coordinator to compute '' @ flag_Arg0 cl
                   @ fmt_args (tl (flag_Args cl)) @ ''...'' @ [CHR 0x0A]) # effs, Some 2))"
  using assms
  by (auto simp: coordinator_main_def Let_def Start_def NewCoordinator_def Start_self_join
      partitionAccumulate_def split: sum.splits prod.splits option.splits bool.splits)

text \<open>
  Claim C9, as amended. The coordinator process exits with status 2 when the flag
  library rejects the command line, and with status 0 when help is shown (the flag
  \<^verbatim>\<open>-help\<close>, the flag \<^verbatim>\<open>-h\<close>, or no computation name). When no goroutine panics
  it also exits with status 0 whenever \<^verbatim>\<open>Start\<close> has completed: on success
  (\<^verbatim>\<open>Finalize\<close> ran), and as well on an unknown computation name and on a rejection
  by \<^verbatim>\<open>Partition\<close> (each reported by a printed line) and on a failed computation
  (fail-fast, with the failure line written).
\<close>

theorem coordinator_exit_status:
  "(flag_loop (flag_defaults\<lparr>flag_Args := argv\<rparr>) = Inl err \<longrightarrow>
      flag_Parse argv = Inl (if err = ErrHelp then 0 else 2) \<and>
      coordinator_main new_id registry argv env = ([], Some (if err = ErrHelp then 0 else 2))) \<and>
   (flag_Parse argv = Inr cl \<longrightarrow>
      (flag_h cl \<or> flag_Arg0 cl = [] \<longrightarrow> coordinator_main new_id registry argv env = ([], Some 0)) \<and>
      (\<not> flag_h cl \<and> flag_Arg0 cl \<noteq> [] \<and> grpc_ok env \<and> sub_coordinators_ok env \<and>
       sub_workers_ok env \<and> announce_join_ok env \<and>
       run_tracking (received env)
         \<lparr>c_id = new_id, c_reg = registry,
          c_tracker = \<lparr>coordinators = {|new_id|}, workers = {||}\<rparr>\<rparr> = Inr c' \<longrightarrow>
         (ComputationByName registry (flag_Arg0 cl) = None \<longrightarrow>
            snd (coordinator_main new_id registry argv env) = Some 0 \<and>
            Printed (flag_Arg0 cl @ '' is not defined'' @ [CHR 0x0A])
              \<in> set (fst (coordinator_main new_id registry argv env))) \<and>
         (\<forall>cm. ComputationByName registry (flag_Arg0 cl) = Some cm \<longrightarrow>
            (\<forall>err. Partition cm \<lparr>Name_req = flag_Arg0 cl, Args = tl (flag_Args cl)\<rparr> = Inl err \<longrightarrow>
               snd (coordinator_main new_id registry argv env) = Some 0 \<and>
               Printed (''Invalid input arguments: '' @ err @ [CHR 0x0A])
                 \<in> set (fst (coordinator_main new_id registry argv env))) \<and>
            (\<forall>ch effs. Partition cm \<lparr>Name_req = flag_Arg0 cl, Args = tl (flag_Args cl)\<rparr> = Inr ch \<and>
               loop_goroutine \<lparr>Name_req = flag_Arg0 cl, Args = tl (flag_Args cl)\<rparr> ch (schedule env)
                 = Some (effs, True) \<and> announce_leave_ok env \<longrightarrow>
               snd (coordinator_main new_id registry argv env) = Some 0 \<and>
               set effs \<subseteq> set (fst (coordinator_main new_id registry argv env))))))"
proof -
  have flag_exit: "flag_Parse argv = Inl (if err = ErrHelp then 0 else 2) \<and>
      coordinator_main new_id registry argv env = ([], Some (if err = ErrHelp then 0 else 2))"
    if "flag_loop (flag_defaults\<lparr>flag_Args := argv\<rparr>) = Inl err"
    using that by (simp add: coordinator_main_def flag_Parse_def)
  have usage_exit: "coordinator_main new_id registry argv env = ([], Some 0)"
    if "flag_Parse argv = Inr cl" "flag_h cl \<or> flag_Arg0 cl = []"
    using that by (auto simp: coordinator_main_def Let_def)
  have run: "coordinator_main new_id registry argv env =
      (let request = \<lparr>Name_req = flag_Arg0 cl, Args = tl (flag_Args cl)\<rparr>;
           banner = Printed (''Starting a coordinator to compute '' @ Name_req request
                            @ fmt_args (Args request) @ ''...'' @ [CHR 0x0A])
       in case partitionAccumulate \<lparr>c_id = new_id, c_reg = registry,
                 c_tracker = \<lparr>coordinators = {|new_id|}, workers = {||}\<rparr>\<rparr> request of
            (out, Inl err) \<Rightarrow> (banner # out, Some 0)
          | (out, Inr ins) \<Rightarrow>
              (case loop_goroutine request ins (schedule env) of
                 None \<Rightarrow> (banner # out, None)
               | Some (effs, ended) \<Rightarrow>
                   if \<not> ended then (banner # out @ effs, None)
                   else if \<not> announce_leave_ok env then (banner # out @ effs, Some 2)
                   else (banner # out @ effs, Some 0)))"
    if "flag_Parse argv = Inr cl" "\<not> flag_h cl" "flag_Arg0 cl \<noteq> []" "grpc_ok env"
      "sub_coordinators_ok env" "sub_workers_ok env" "announce_join_ok env"
      "run_tracking (received env)
         \<lparr>c_id = new_id, c_reg = registry,
          c_tracker = \<lparr>coordinators = {|new_id|}, workers = {||}\<rparr>\<rparr> = Inr c'"
    using that
    by (simp add: coordinator_main_def Let_def Start_def NewCoordinator_def Start_self_join
        split: sum.splits prod.splits option.splits bool.splits)
  show ?thesis
    using flag_exit usage_exit
    by (auto simp: run Let_def partitionAccumulate_def
        split: sum.splits prod.splits option.splits)
qed

text \<open>The equations that evaluate a concrete run of \<^verbatim>\<open>main\<close>.\<close>

lemmas main_eval = coordinator_main_def flag_Parse_def flag_loop.simps parseOne_def set_flag_def
  ParseBool_def flag_defaults_def flag_Arg0_def Start_def NewCoordinator_def NewTracker_def
  TryJoin_def partitionAccumulate_def announce_recv_def trackWorkers_recv_def
  Coordinator_trackCoordinators_def ParseComponentRole_def bytes_Equal_def DataAnnounceJoin_def

theorem coordinator_exit_status_witness:
  "flag_loop (flag_defaults\<lparr>flag_Args := [''-x'', ''fac'', ''3'']\<rparr>) = Inl ErrFlag \<and>
   flag_loop (flag_defaults\<lparr>flag_Args := [''--help'']\<rparr>) = Inl ErrHelp \<and>
   coordinator_main ''c1'' fac_registry [''--help'']
     \<lparr>grpc_ok = True, sub_coordinators_ok = True, sub_workers_ok = True,
      announce_join_ok = True, announce_leave_ok = True, received = [], schedule = []\<rparr>
   = ([], Some 0) \<and>
   coordinator_main ''c1'' fac_registry [''-x'', ''fac'', ''3'']
     \<lparr>grpc_ok = True, sub_coordinators_ok = True, sub_workers_ok = True,
      announce_join_ok = True, announce_leave_ok = True, received = [], schedule = []\<rparr>
   = ([], Some 2) \<and>
   flag_Parse [''-l'', ''-d=:8901'', ''fac'', ''3'']
   = Inr \<lparr>flag_d = '':8901'', flag_h = False, flag_l = True, flag_Args = [''fac'', ''3'']\<rparr> \<and>
   run_tracking
     [WorkerAnnouncement \<lparr>Type_event = ''ddaexmpls.compute.announceWorker'', Id_event = ''w1'',
        Source_event = ''worker'', Data_event = Some ''HELLO''\<rparr>,
      AnnounceReply \<lparr>Context = ''worker'', Data = Some ''w2''\<rparr>]
     \<lparr>c_id = ''c1'', c_reg = fac_registry,
      c_tracker = \<lparr>coordinators = {|''c1''|}, workers = {||}\<rparr>\<rparr>
   = Inr \<lparr>c_id = ''c1'', c_reg = fac_registry,
      c_tracker = \<lparr>coordinators = {|''c1''|}, workers = {|''w2'', ''w1''|}\<rparr>\<rparr> \<and>
   coordinator_main ''c1'' fac_registry [''-l'', ''-d=:8901'', ''fac'', ''3'']
     \<lparr>grpc_ok = True, sub_coordinators_ok = True, sub_workers_ok = True,
      announce_join_ok = True, announce_leave_ok = True,
      received =
        [WorkerAnnouncement \<lparr>Type_event = ''ddaexmpls.compute.announceWorker'', Id_event = ''w1'',
           Source_event = ''worker'', Data_event = Some ''HELLO''\<rparr>,
         AnnounceReply \<lparr>Context = ''worker'', Data = Some ''w2''\<rparr>],
      schedule =
        [(\<lparr>coordinators = {|''c1''|}, workers = {|''w1'', ''w2''|}\<rparr>, RecvIn),
         (\<lparr>coordinators = {|''c1''|}, workers = {|''w1'', ''w2''|}\<rparr>, RecvIn),
         (\<lparr>coordinators = {|''c1''|}, workers = {|''w1'', ''w2''|}\<rparr>,
            RecvCompleted (Some ''2'') (RecvOk \<lparr>Context = ''w1'', Data = Some ''2''\<rparr>)),
         (\<lparr>coordinators = {|''c1''|}, workers = {|''w1'', ''w2''|}\<rparr>,
            RecvCompleted (Some ''3'') (RecvOk \<lparr>Context = ''w2'', Data = Some ''3''\<rparr>)),
         (\<lparr>coordinators = {|''c1''|}, workers = {|''w1'', ''w2''|}\<rparr>, RecvIn)]\<rparr>
   = ([Printed (''Starting a coordinator to compute fac[3]...'' @ [CHR 0x0A]),
       Dispatched (Some ''2''), Dispatched (Some ''3''), Accumulated (Some ''2''),
       Accumulated (Some ''3''), Finalized], Some 0)"
proof -
  let ?cl = "\<lparr>flag_d = '':8901'', flag_h = False, flag_l = True, flag_Args = [''fac'', ''3'']\<rparr>"
  let ?req = "\<lparr>Name_req = flag_Arg0 ?cl, Args = tl (flag_Args ?cl)\<rparr>"
  let ?msgs = "[WorkerAnnouncement \<lparr>Type_event = ''ddaexmpls.compute.announceWorker'',
           Id_event = ''w1'', Source_event = ''worker'', Data_event = Some ''HELLO''\<rparr>,
         AnnounceReply \<lparr>Context = ''worker'', Data = Some ''w2''\<rparr>]"
  let ?sched = "[(\<lparr>coordinators = {|''c1''|}, workers = {|''w1'', ''w2''|}\<rparr>, RecvIn),
         (\<lparr>coordinators = {|''c1''|}, workers = {|''w1'', ''w2''|}\<rparr>, RecvIn),
         (\<lparr>coordinators = {|''c1''|}, workers = {|''w1'', ''w2''|}\<rparr>,
            RecvCompleted (Some ''2'') (RecvOk \<lparr>Context = ''w1'', Data = Some ''2''\<rparr>)),
         (\<lparr>coordinators = {|''c1''|}, workers = {|''w1'', ''w2''|}\<rparr>,
            RecvCompleted (Some ''3'') (RecvOk \<lparr>Context = ''w2'', Data = Some ''3''\<rparr>)),
         (\<lparr>coordinators = {|''c1''|}, workers = {|''w1'', ''w2''|}\<rparr>, RecvIn)]"
  let ?env = "\<lparr>grpc_ok = True, sub_coordinators_ok = True, sub_workers_ok = True,
      announce_join_ok = True, announce_leave_ok = True, received = ?msgs, schedule = ?sched\<rparr>"
  let ?effs = "[Dispatched (Some ''2''), Dispatched (Some ''3''), Accumulated (Some ''2''),
       Accumulated (Some ''3''), Finalized]"
  have bad_flag: "flag_loop (flag_defaults\<lparr>flag_Args := [''-x'', ''fac'', ''3'']\<rparr>) = Inl ErrFlag"
    by (simp add: main_eval)
  have help_flag: "flag_loop (flag_defaults\<lparr>flag_Args := [''--help'']\<rparr>) = Inl ErrHelp"
    by (simp add: main_eval)
  have good_flags: "flag_Parse [''-l'', ''-d=:8901'', ''fac'', ''3''] = Inr ?cl"
    by (simp add: main_eval)
  have tracking: "run_tracking ?msgs
     \<lparr>c_id = ''c1'', c_reg = fac_registry,
      c_tracker = \<lparr>coordinators = {|''c1''|}, workers = {||}\<rparr>\<rparr>
   = Inr \<lparr>c_id = ''c1'', c_reg = fac_registry,
      c_tracker = \<lparr>coordinators = {|''c1''|}, workers = {|''w2'', ''w1''|}\<rparr>\<rparr>"
    by (simp add: main_eval bytes_of_def)
  have started: "\<not> flag_h ?cl \<and> flag_Arg0 ?cl \<noteq> [] \<and> grpc_ok ?env \<and> sub_coordinators_ok ?env \<and>
       sub_workers_ok ?env \<and> announce_join_ok ?env \<and>
       run_tracking (received ?env)
         \<lparr>c_id = ''c1'', c_reg = fac_registry,
          c_tracker = \<lparr>coordinators = {|''c1''|}, workers = {||}\<rparr>\<rparr>
       = Inr \<lparr>c_id = ''c1'', c_reg = fac_registry,
          c_tracker = \<lparr>coordinators = {|''c1''|}, workers = {|''w2'', ''w1''|}\<rparr>\<rparr>"
    using tracking by (simp add: flag_Arg0_def)
  have registered: "ComputationByName fac_registry (flag_Arg0 ?cl) = Some fac_computation"
    by (simp add: flag_Arg0_def ComputationByName_def fac_registry_def fac_Name_def)
  have looped: "Partition fac_computation ?req = Inr (fac_inputs 2 3) \<and>
       loop_goroutine ?req (fac_inputs 2 3) (schedule ?env) = Some (?effs, True) \<and>
       announce_leave_ok ?env"
    by (simp add: flag_Arg0_def loop_eval fac_eval)
  note refused = coordinator_exit_status [THEN conjunct1, rule_format, OF bad_flag,
      THEN conjunct2, of "''c1''" fac_registry
      "\<lparr>grpc_ok = True, sub_coordinators_ok = True, sub_workers_ok = True,
        announce_join_ok = True, announce_leave_ok = True, received = [], schedule = []\<rparr>"]
  note helped = coordinator_exit_status [THEN conjunct1, rule_format, OF help_flag,
      THEN conjunct2, of "''c1''" fac_registry
      "\<lparr>grpc_ok = True, sub_coordinators_ok = True, sub_workers_ok = True,
        announce_join_ok = True, announce_leave_ok = True, received = [], schedule = []\<rparr>"]
  note succeeded = coordinator_exit_status [THEN conjunct2, rule_format, OF good_flags,
      THEN conjunct2, rule_format, OF started,
      THEN conjunct2, rule_format, OF registered,
      THEN conjunct2, rule_format, OF looped, THEN conjunct1]
  have finished: "coordinator_main ''c1'' fac_registry [''-l'', ''-d=:8901'', ''fac'', ''3''] ?env
   = (Printed (''Starting a coordinator to compute fac[3]...'' @ [CHR 0x0A]) # ?effs, Some 0)"
    by (simp add: main_eval loop_eval fac_eval)
  from bad_flag help_flag helped refused good_flags tracking succeeded finished show ?thesis
    by simp
qed

theorem coordinator_exit_status_counterexample:
  "coordinator_main ''c1'' fac_registry [''fib'', ''5'']
     \<lparr>grpc_ok = True, sub_coordinators_ok = True, sub_workers_ok = True,
      announce_join_ok = True, announce_leave_ok = True, received = [], schedule = []\<rparr>
   = ([Printed (''Starting a coordinator to compute fib[5]...'' @ [CHR 0x0A]),
       Printed (''fib is not defined'' @ [CHR 0x0A])], Some 0) \<and>
   coordinator_main ''c1'' fac_registry [''fac'', ''-5'']
     \<lparr>grpc_ok = True, sub_coordinators_ok = True, sub_workers_ok = True,
      announce_join_ok = True, announce_leave_ok = True, received = [], schedule = []\<rparr>
   = ([Printed (''Starting a coordinator to compute fac[-5]...'' @ [CHR 0x0A]),
       Printed (''Invalid input arguments: one non-negative integer argument required''
         @ [CHR 0x0A])], Some 0) \<and>
   coordinator_main ''c1'' fac_registry [''fac'', ''4'']
     \<lparr>grpc_ok = True, sub_coordinators_ok = True, sub_workers_ok = True,
      announce_join_ok = True, announce_leave_ok = True, received = [],
      schedule =
        [(\<lparr>coordinators = {|''c1''|}, workers = {|''w1'', ''w2'', ''w3''|}\<rparr>, RecvIn),
         (\<lparr>coordinators = {|''c1''|}, workers = {|''w1'', ''w2'', ''w3''|}\<rparr>, RecvIn),
         (\<lparr>coordinators = {|''c1''|}, workers = {|''w1'', ''w2'', ''w3''|}\<rparr>,
            RecvCompleted (Some ''2'') (RecvOk \<lparr>Context = ''w1'', Data = Some ''2''\<rparr>)),
         (\<lparr>coordinators = {|''c1''|}, workers = {|''w1'', ''w2'', ''w3''|}\<rparr>,
            RecvCompleted (Some ''3'') (RecvOk \<lparr>Context = ''w2'', Data = Some []\<rparr>))]\<rparr>
   = ([Printed (''Starting a coordinator to compute fac[4]...'' @ [CHR 0x0A]),
       Dispatched (Some ''2''), Dispatched (Some ''3''), Accumulated (Some ''2''),
       Written (''Computation fac[4] failed'' @ [CHR 0x0A])], Some 0)"
  by (simp add: main_eval loop_eval fac_eval)

section \<open>Properties of the decimal conversion and of the factorial computation\<close>

lemma decimal_loop_mono: "decimal_loop n cs = Some v \<Longrightarrow> n \<le> v"
proof (induction cs arbitrary: n)
  case Nil
  then show ?case by simp
next
  case (Cons c cs)
  then have "decimal_loop (n * 10 + (of_char c - 48)) cs = Some v"
    by (simp add: Let_def split: if_splits)
  from Cons.IH [OF this] show ?case by simp
qed

lemma digit_of_decimal:
  "(\<exists>d. digit_of c = Some d \<and> d < 10) \<longleftrightarrow> 48 \<le> (of_char c :: nat) \<and> (of_char c :: nat) \<le> 57"
  by (auto simp: digit_of_def Let_def)

lemma digit_of_digit:
  "48 \<le> (of_char c :: nat) \<Longrightarrow> (of_char c :: nat) \<le> 57 \<Longrightarrow> digit_of c = Some (of_char c - 48)"
  by (simp add: digit_of_def)

lemma ParseUint_loop_decimal:
  assumes "n < 2 ^ 64"
  shows "ParseUint_loop n cs = Inr v \<longleftrightarrow> decimal_loop n cs = Some v \<and> v < 2 ^ 64"
  using assms
proof (induction cs arbitrary: n)
  case Nil
  then show ?case by auto
next
  case (Cons c cs)
  define k where "k = (of_char c :: nat)"
  show ?case
  proof (cases "48 \<le> k \<and> k \<le> 57")
    case False
    then have "\<not> (\<exists>d. digit_of c = Some d \<and> d < 10)"
      by (simp add: digit_of_decimal k_def)
    then have "ParseUint_loop n (c # cs) = Inl ErrSyntax"
      by (auto split: option.splits)
    moreover from False have "decimal_loop n (c # cs) = None"
      by (auto simp: k_def Let_def)
    ultimately show ?thesis by simp
  next
    case True
    define d where "d = k - 48"
    from True have d: "d < 10"
      by (auto simp: d_def)
    from True have dig: "digit_of c = Some d"
      by (simp add: digit_of_digit k_def d_def)
    from True have dec: "decimal_loop n (c # cs) = decimal_loop (n * 10 + d) cs"
      by (simp add: k_def d_def Let_def)
    show ?thesis
    proof (cases "n * 10 + d < 2 ^ 64")
      case small: True
      then have "n < maxUint64 div 10 + 1"
        by (simp add: maxUint64_def)
      moreover from small have "(n * 10) mod 2 ^ 64 = n * 10"
        and "(n * 10 + d) mod 2 ^ 64 = n * 10 + d" by simp_all
      ultimately have "ParseUint_loop n (c # cs) = ParseUint_loop (n * 10 + d) cs"
        using dig d small by (simp add: maxUint64_def)
      with dec Cons.IH [OF small] show ?thesis by simp
    next
      case big: False
      have "ParseUint_loop n (c # cs) = Inl ErrRange"
      proof (cases "n \<ge> maxUint64 div 10 + 1")
        case True
        with dig d show ?thesis by simp
      next
        case False
        then have n10: "n * 10 < 2 ^ 64" by (simp add: maxUint64_def)
        then have m1: "(n * 10) mod 2 ^ 64 = n * 10" by simp
        from big n10 d have "(n * 10 + d) mod 2 ^ 64 = n * 10 + d - 2 ^ 64"
          by (simp add: mod_if)
        moreover from big n10 d have "n * 10 + d - 2 ^ 64 < n * 10" by simp
        ultimately show ?thesis using dig d False m1 by simp
      qed
      moreover have "\<not> (decimal_loop (n * 10 + d) cs = Some v \<and> v < 2 ^ 64)"
        using big decimal_loop_mono [of "n * 10 + d" cs v] by auto
      ultimately show ?thesis using dec by simp
    qed
  qed
qed

lemma ParseUint_decimal:
  "ParseUint s = Inr v \<longleftrightarrow> decimal_value s = Some v \<and> v < 2 ^ 64"
  by (simp add: ParseUint_def decimal_value_def ParseUint_loop_decimal)


lemma decimal_loop_append:
  "decimal_loop n (xs @ ys) = (case decimal_loop n xs of None \<Rightarrow> None | Some m \<Rightarrow> decimal_loop m ys)"
  by (induction xs arbitrary: n) (simp_all add: Let_def)

lemma of_char_digit_char:
  assumes "d < 10"
  shows "(of_char (digit_char d) :: nat) = 48 + d"
proof -
  from assms have "d \<in> {0, 1, 2, 3, 4, 5, 6, 7, 8, 9}" by auto
  then show ?thesis by (auto simp: digit_char_def)
qed

lemma decimal_loop_digit:
  "d < 10 \<Longrightarrow> decimal_loop m [digit_char d] = Some (m * 10 + d)"
  by (simp add: of_char_digit_char)

lemma FormatUint_not_Nil: "FormatUint i \<noteq> []"
  by (subst FormatUint.simps) simp

lemma decimal_loop_FormatUint: "decimal_loop 0 (FormatUint i) = Some i"
proof (induction i rule: FormatUint.induct)
  case (1 i)
  show ?case
  proof (cases "i < 10")
    case True
    then show ?thesis
      by (subst FormatUint.simps) (simp add: decimal_loop_digit del: decimal_loop.simps)
  next
    case False
    with 1 have "decimal_loop 0 (FormatUint (i div 10)) = Some (i div 10)" by simp
    with False show ?thesis
      by (subst FormatUint.simps)
        (simp add: decimal_loop_append decimal_loop_digit del: decimal_loop.simps)
  qed
qed

lemma decimal_value_FormatUint: "decimal_value (FormatUint i) = Some i"
  by (simp add: decimal_value_def FormatUint_not_Nil decimal_loop_FormatUint)

lemma ParseUint_FormatUint: "i < 2 ^ 64 \<Longrightarrow> ParseUint (FormatUint i) = Inr i"
  by (simp add: ParseUint_decimal decimal_value_FormatUint)

lemma fac_inputs_upto:
  assumes "n < 2 ^ 64 - 1" and "i \<le> Suc n"
  shows "fac_inputs i n = channel_of (map (\<lambda>j. Some (FormatUint j)) [i..<Suc n])"
  using assms(2)
proof (induction "Suc n - i" arbitrary: i)
  case 0
  then have "i = Suc n" by simp
  then show ?case by (subst fac_inputs.code) simp
next
  case (Suc k)
  then have i: "i \<le> n" by simp
  with assms(1) have "(i + 1) mod 2 ^ 64 = Suc i" by simp
  moreover from Suc i have "fac_inputs (Suc i) n = channel_of (map (\<lambda>j. Some (FormatUint j)) [Suc i..<Suc n])"
    by simp
  moreover from i have "[i..<Suc n] = i # [Suc i..<Suc n]"
    by (simp add: upt_conv_Cons)
  ultimately show ?case using i
    by (subst fac_inputs.code) simp
qed

lemma fac_inputs_finite:
  assumes "n < 2 ^ 64 - 1"
  shows "fac_inputs i n = channel_of (map (\<lambda>j. Some (FormatUint j)) [i..<Suc n])"
proof (cases "i \<le> Suc n")
  case True
  with assms show ?thesis by (rule fac_inputs_upto)
next
  case False
  then show ?thesis by (subst fac_inputs.code) simp
qed

lemma accumulate_all_result:
  "result (accumulate_all outs c) = result c * prod_list (map factor outs)"
  unfolding accumulate_all_def
proof (induction outs arbitrary: c)
  case Nil
  then show ?case by simp
next
  case (Cons out outs)
  have "result (fst (fac_Accumulate out c)) = result c * factor out"
    by (simp add: fac_Accumulate_def factor_def split: sum.splits)
  with Cons show ?case by (simp add: mult.assoc)
qed

lemma accumulate_all_request: "request (accumulate_all outs c) = request c"
  unfolding accumulate_all_def
  by (induction outs arbitrary: c) (simp_all add: fac_Accumulate_def split: sum.splits)

lemma factor_FormatUint: "i < 2 ^ 63 \<Longrightarrow> factor (Some (FormatUint i)) = int i"
  by (simp add: factor_def bytes_of_def ParseUint_FormatUint int64_of_def)

lemma prod_upt_fact: "prod_list (map int [2..<Suc n]) = fact n"
proof (induction n)
  case 0
  then show ?case by simp
next
  case (Suc n)
  show ?case
  proof (cases "n = 0")
    case True
    then show ?thesis by simp
  next
    case False
    then have "[2..<Suc (Suc n)] = [2..<Suc n] @ [Suc n]" by simp
    with Suc show ?thesis by (simp add: algebra_simps)
  qed
qed

lemma factor_outputs:
  assumes "n < 2 ^ 63"
  shows "map factor (map (\<lambda>j. Some (FormatUint j)) [2..<Suc n]) = map int [2..<Suc n]"
proof -
  have "factor (Some (FormatUint j)) = int j" if "j \<in> set [2..<Suc n]" for j
  proof -
    from that have "j \<le> n" by auto
    from this assms have "j < 2 ^ 63" by (rule le_less_trans)
    then show ?thesis by (rule factor_FormatUint)
  qed
  then show ?thesis by (simp only: map_map o_def cong: map_cong)
qed

lemma prod_list_mset_cong:
  fixes f :: "'a \<Rightarrow> int"
  assumes "mset xs = mset ys"
  shows "prod_list (map f xs) = prod_list (map f ys)"
proof -
  have "prod_list (map f xs) = prod_mset (mset (map f xs))"
    by (simp only: prod_mset_prod_list)
  also have "\<dots> = prod_mset (image_mset f (mset xs))"
    by (simp only: mset_map)
  also have "\<dots> = prod_mset (image_mset f (mset ys))"
    by (simp only: assms)
  also have "\<dots> = prod_mset (mset (map f ys))"
    by (simp only: mset_map)
  also have "\<dots> = prod_list (map f ys)"
    by (simp only: prod_mset_prod_list)
  finally show ?thesis .
qed

lemma accumulate_outputs_fact:
  assumes "n < 2 ^ 63"
    and "mset outs = mset (map (\<lambda>j. fac_PartialCompute (Some (FormatUint j))) [2..<Suc n])"
  shows "result (accumulate_all outs c) = result c * fact n"
proof -
  from assms(2) have "mset outs = mset (map (\<lambda>j. Some (FormatUint j)) [2..<Suc n])"
    by (simp only: fac_PartialCompute_def)
  then have "prod_list (map factor outs)
      = prod_list (map factor (map (\<lambda>j. Some (FormatUint j)) [2..<Suc n]))"
    by (rule prod_list_mset_cong)
  also have "\<dots> = fact n"
    using assms(1) by (simp only: factor_outputs prod_upt_fact)
  finally show ?thesis by (simp add: accumulate_all_result)
qed


lemma fac_Partition_succeeds:
  "(\<exists>r. fac_Partition req = Inr r) \<longleftrightarrow>
   (\<exists>s n. Args req = [s] \<and> decimal_value s = Some n \<and> n < 2 ^ 64)"
proof (cases "Args req")
  case Nil
  then show ?thesis by (simp add: fac_Partition_def)
next
  case (Cons s rest)
  show ?thesis
  proof (cases rest)
    case Nil
    have "(\<exists>n. ParseUint s = Inr n) \<longleftrightarrow> (\<exists>n. decimal_value s = Some n \<and> n < 2 ^ 64)"
      by (simp add: ParseUint_decimal)
    with Cons Nil show ?thesis
      by (auto simp: fac_Partition_def split: sum.splits)
  next
    case (Cons s' rest')
    with \<open>Args req = s # rest\<close> show ?thesis by (simp add: fac_Partition_def)
  qed
qed

text \<open>With the largest \<^verbatim>\<open>uint64\<close> as argument the producer never closes the channel.\<close>

lemma fac_inputs_endless:
  assumes "i < 2 ^ 64"
  shows "fac_inputs i maxUint64 =
           Deliver (Some (FormatUint i)) (fac_inputs ((i + 1) mod 2 ^ 64) maxUint64) \<and>
         (i + 1) mod 2 ^ 64 < 2 ^ 64"
  using assms by (subst fac_inputs.code) (simp add: maxUint64_def)

section \<open>Claims about the factorial computation\<close>

text \<open>
  Claim C8, as amended. For the \<^verbatim>\<open>fac\<close> computation: \<^verbatim>\<open>Partition\<close> succeeds exactly on
  the argument lists that are one decimal numeral (a non-empty string of digits) of a
  value \<open>n\<close> below \<open>2 ^ 64\<close>, and returns an error for any other argument list; for
  \<open>n\<close> below \<open>2 ^ 64 - 1\<close> it sets the result to \<open>1\<close> and its channel delivers exactly
  the decimal strings of \<open>2, 3, ..., n\<close> in order (none when \<open>n\<close> is 0 or 1) and is
  closed; \<^verbatim>\<open>PartialCompute\<close> is the identity; \<^verbatim>\<open>Accumulate\<close> multiplies the result with
  the decoded value of a decimal output below \<open>2 ^ 63\<close>; so for \<open>n\<close> below \<open>2 ^ 63\<close>
  accumulating all partial outputs, in any order, yields \<open>n!\<close>: 120 for the argument
  \<^verbatim>\<open>5\<close>, and no inputs and the result 1 for the argument \<^verbatim>\<open>0\<close>.
\<close>

theorem fac_computes_factorial:
  "((\<exists>r. fac_Partition req = Inr r) \<longleftrightarrow>
      (\<exists>s n. Args req = [s] \<and> decimal_value s = Some n \<and> n < 2 ^ 64)) \<and>
   (decimal_value s = Some n \<and> n < 2 ^ 64 - 1 \<longrightarrow>
      fac_Partition \<lparr>Name_req = name, Args = [s]\<rparr> =
        Inr (\<lparr>request = \<lparr>Name_req = name, Args = [s]\<rparr>, result = 1\<rparr>,
             channel_of (map (\<lambda>j. Some (FormatUint j)) [2..<Suc n]))) \<and>
   fac_PartialCompute input = input \<and>
   (i < 2 ^ 63 \<longrightarrow>
      fac_Accumulate (Some (FormatUint i)) c = (c\<lparr>result := result c * int i\<rparr>, None)) \<and>
   (n < 2 ^ 63 \<and> mset outs = mset (map (\<lambda>j. fac_PartialCompute (Some (FormatUint j))) [2..<Suc n]) \<longrightarrow>
      result (accumulate_all outs \<lparr>request = \<lparr>Name_req = name, Args = [s]\<rparr>, result = 1\<rparr>) = fact n)"
proof -
  have part: "fac_Partition \<lparr>Name_req = name, Args = [s]\<rparr> =
        Inr (\<lparr>request = \<lparr>Name_req = name, Args = [s]\<rparr>, result = 1\<rparr>,
             channel_of (map (\<lambda>j. Some (FormatUint j)) [2..<Suc n]))"
    if "decimal_value s = Some n" and n: "n < 2 ^ 64 - 1"
  proof -
    from that have "ParseUint s = Inr n" by (simp add: ParseUint_decimal)
    moreover from n have "fac_inputs 2 n = channel_of (map (\<lambda>j. Some (FormatUint j)) [2..<Suc n])"
      by (rule fac_inputs_finite)
    ultimately show ?thesis by (simp add: fac_Partition_def)
  qed
  have acc: "fac_Accumulate (Some (FormatUint i)) c = (c\<lparr>result := result c * int i\<rparr>, None)"
    if "i < 2 ^ 63"
    using that by (simp add: fac_Accumulate_def bytes_of_def ParseUint_FormatUint int64_of_def)
  have fold: "result (accumulate_all outs \<lparr>request = \<lparr>Name_req = name, Args = [s]\<rparr>, result = 1\<rparr>) = fact n"
    if "n < 2 ^ 63" and "mset outs = mset (map (\<lambda>j. fac_PartialCompute (Some (FormatUint j))) [2..<Suc n])"
    using accumulate_outputs_fact [OF that] by simp
  from fac_Partition_succeeds part acc fold show ?thesis
    by (simp add: fac_PartialCompute_def)
qed

theorem fac_computes_factorial_witness:
  "decimal_value ''5'' = Some 5 \<and>
   fac_Partition \<lparr>Name_req = ''fac'', Args = [''5'']\<rparr> =
     Inr (\<lparr>request = \<lparr>Name_req = ''fac'', Args = [''5'']\<rparr>, result = 1\<rparr>,
          channel_of [Some ''2'', Some ''3'', Some ''4'', Some ''5'']) \<and>
   mset [Some ''4'', Some ''2'', Some ''5'', Some ''3'']
     = mset (map (\<lambda>j. fac_PartialCompute (Some (FormatUint j))) [2..<Suc 5]) \<and>
   result (accumulate_all [Some ''4'', Some ''2'', Some ''5'', Some ''3'']
     \<lparr>request = \<lparr>Name_req = ''fac'', Args = [''5'']\<rparr>, result = 1\<rparr>) = 120 \<and>
   decimal_value ''0'' = Some 0 \<and>
   fac_Partition \<lparr>Name_req = ''fac'', Args = [''0'']\<rparr> =
     Inr (\<lparr>request = \<lparr>Name_req = ''fac'', Args = [''0'']\<rparr>, result = 1\<rparr>, Closed) \<and>
   result (accumulate_all [] \<lparr>request = \<lparr>Name_req = ''fac'', Args = [''0'']\<rparr>, result = 1\<rparr>) = 1"
proof -
  have d5: "decimal_value ''5'' = Some 5" and d0: "decimal_value ''0'' = Some 0"
    by (simp_all add: decimal_value_def)
  have fmt: "map (\<lambda>j. Some (FormatUint j)) [2..<Suc 5] = [Some ''2'', Some ''3'', Some ''4'', Some ''5'']"
    by (simp add: FormatUint.simps digit_char_def upt_rec [of 2 "Suc 5"] upt_rec [of 3 "Suc 5"]
        upt_rec [of 4 "Suc 5"] upt_rec [of 5 "Suc 5"] upt_rec [of 6 "Suc 5"])
  have outs: "mset [Some ''4'', Some ''2'', Some ''5'', Some ''3'']
     = mset (map (\<lambda>j. fac_PartialCompute (Some (FormatUint j))) [2..<Suc 5])"
    unfolding fac_PartialCompute_def fmt by (simp add: add_mset_commute)
  have f5: "fact 5 = (120 :: int)"
    by (simp add: fact_numeral)
  note thm5 = fac_computes_factorial [of _ "''5''" 5 "''fac''" _ 0 _
      "[Some ''4'', Some ''2'', Some ''5'', Some ''3'']"]
  note thm0 = fac_computes_factorial [of _ "''0''" 0 "''fac''" _ 0 _ "[]"]
  from thm5 d5 have p5: "fac_Partition \<lparr>Name_req = ''fac'', Args = [''5'']\<rparr> =
     Inr (\<lparr>request = \<lparr>Name_req = ''fac'', Args = [''5'']\<rparr>, result = 1\<rparr>,
          channel_of [Some ''2'', Some ''3'', Some ''4'', Some ''5''])"
    unfolding fmt by simp
  from thm5 outs f5 have r5: "result (accumulate_all [Some ''4'', Some ''2'', Some ''5'', Some ''3'']
     \<lparr>request = \<lparr>Name_req = ''fac'', Args = [''5'']\<rparr>, result = 1\<rparr>) = 120"
    by simp
  from thm0 d0 have p0: "fac_Partition \<lparr>Name_req = ''fac'', Args = [''0'']\<rparr> =
     Inr (\<lparr>request = \<lparr>Name_req = ''fac'', Args = [''0'']\<rparr>, result = 1\<rparr>, Closed)"
    by simp
  from thm0 have r0: "result (accumulate_all [] \<lparr>request = \<lparr>Name_req = ''fac'', Args = [''0'']\<rparr>, result = 1\<rparr>) = 1"
    by simp
  from d5 p5 outs r5 d0 p0 r0 show ?thesis by (intro conjI)
qed

theorem fac_computes_factorial_counterexample:
  "decimal_value ''18446744073709551616'' = Some 18446744073709551616 \<and>
   fac_Partition \<lparr>Name_req = ''fac'', Args = [''18446744073709551616'']\<rparr>
     = Inl ''one non-negative integer argument required''"
  by (simp add: decimal_value_def fac_Partition_def ParseUint_def digit_of_def maxUint64_def)

end
